theory Spec2Isabelle
  imports Main "HOL-Library.AList"
begin

section \<open>Values, dictionaries and errors\<close>

text \<open>
  The payloads handled by \<^verbatim>\<open>sqlite_store.py\<close> are JSON-compatible Python values.
  A Python \<^verbatim>\<open>dict\<close> keeps insertion order and has unique keys, so it is an association
  list; \<^verbatim>\<open>d[k] = v\<close> is \<^const>\<open>AList.update\<close> (replace in place, or append). Numbers are
  Python integers; floating point payloads are outside this embedding.
\<close>

datatype json =
    JNull
  | JBool bool
  | JInt int
  | JStr string
  | JArr "json list"
  | JObj "(string \<times> json) list"

type_synonym pydict = "(string \<times> json) list"

datatype sqlite_error = UnableToOpen | NoSuchTable string | TableExists string

datatype error =
    FileNotFoundError
  | FileExistsError
  | NotADirectoryError
  | AttributeError
  | JSONDecodeError
  | OperationalError sqlite_error

text \<open>Python truthiness, as tested by \<^verbatim>\<open>if docs:\<close>.\<close>

fun truthy :: "json \<Rightarrow> bool" where
  "truthy JNull = False"
| "truthy (JBool b) = b"
| "truthy (JInt i) = (i \<noteq> 0)"
| "truthy (JStr s) = (s \<noteq> [])"
| "truthy (JArr xs) = (xs \<noteq> [])"
| "truthy (JObj kvs) = (kvs \<noteq> [])"

text \<open>\<^verbatim>\<open>value.items()\<close>: only a dict has the method; anything else raises AttributeError.\<close>

fun items :: "json \<Rightarrow> error + pydict" where
  "items (JObj kvs) = Inr kvs"
| "items _ = Inl AttributeError"

text \<open>\<^verbatim>\<open>data.get(key, default)\<close>.\<close>

definition dict_get :: "pydict \<Rightarrow> string \<Rightarrow> json \<Rightarrow> json" where
  "dict_get d k dflt = (case map_of d k of None \<Rightarrow> dflt | Some v \<Rightarrow> v)"

text \<open>Sequencing of steps that may raise: the first exception ends the block.\<close>

definition bind_res :: "error + 'a \<Rightarrow> ('a \<Rightarrow> error + 'b) \<Rightarrow> error + 'b" where
  "bind_res m f = (case m of Inl e \<Rightarrow> Inl e | Inr x \<Rightarrow> f x)"

text \<open>
  Python's dict equality: the same keys with the same values, whatever the order.
\<close>

definition dict_equal :: "pydict \<Rightarrow> pydict \<Rightarrow> bool" where
  "dict_equal a b \<longleftrightarrow>
     set (map fst a) = set (map fst b) \<and> (\<forall>k \<in> set (map fst a). map_of a k = map_of b k)"

section \<open>The embedded database\<close>

text \<open>
  Every table of the store has a TEXT primary key and a TEXT payload. A table is its rows
  in rowid order, which is the order of a full scan; a database file is a finite map from
  table names to tables.
\<close>

type_synonym row = "string \<times> string"
type_synonym table = "row list"
type_synonym database = "string \<rightharpoonup> table"

text \<open>
  \<^verbatim>\<open>CREATE TABLE [IF NOT EXISTS] t (...)\<close>. The source always passes IF NOT EXISTS.
\<close>

definition create_table :: "bool \<Rightarrow> string \<Rightarrow> database \<Rightarrow> error + database" where
  "create_table if_not_exists t db =
     (case db t of
        None \<Rightarrow> Inr (db(t \<mapsto> []))
      | Some rows \<Rightarrow>
          if if_not_exists then Inr db else Inl (OperationalError (TableExists t)))"

text \<open>\<^verbatim>\<open>DELETE FROM t\<close>.\<close>

definition delete_from :: "string \<Rightarrow> database \<Rightarrow> error + database" where
  "delete_from t db =
     (case db t of
        None \<Rightarrow> Inl (OperationalError (NoSuchTable t))
      | Some rows \<Rightarrow> Inr (db(t \<mapsto> [])))"

text \<open>
  \<^verbatim>\<open>INSERT OR REPLACE INTO t VALUES (k, payload)\<close>: a row with the same primary key is
  deleted, then the new row is appended.
\<close>

definition insert_or_replace :: "string \<Rightarrow> row \<Rightarrow> database \<Rightarrow> error + database" where
  "insert_or_replace t r db =
     (case db t of
        None \<Rightarrow> Inl (OperationalError (NoSuchTable t))
      | Some rows \<Rightarrow> Inr (db(t \<mapsto> filter (\<lambda>r'. fst r' \<noteq> fst r) rows @ [r])))"

text \<open>
  \<^verbatim>\<open>executemany("INSERT OR REPLACE ...", ((k, json.dumps(v)) for k, v in d.items()))\<close>:
  one insert per item, in the order of the dict.
\<close>

fun executemany :: "(json \<Rightarrow> string) \<Rightarrow> string \<Rightarrow> pydict \<Rightarrow> database \<Rightarrow> error + database" where
  "executemany dumps t [] db = Inr db"
| "executemany dumps t ((k, v) # kvs) db =
     bind_res (insert_or_replace t (k, dumps v) db) (executemany dumps t kvs)"

text \<open>\<^verbatim>\<open>SELECT key, payload FROM t\<close>.\<close>

definition select_all :: "string \<Rightarrow> database \<Rightarrow> error + table" where
  "select_all t db =
     (case db t of None \<Rightarrow> Inl (OperationalError (NoSuchTable t)) | Some rows \<Rightarrow> Inr rows)"

section \<open>The file system\<close>

text \<open>
  A path is its list of components; the empty path is the anchor (the root, or the working
  directory of a relative path), which is always a directory. A file is a database file.
\<close>

datatype node = Directory | DbFile database

type_synonym path = "string list"
type_synonym fs = "path \<rightharpoonup> node"

definition node_at :: "fs \<Rightarrow> path \<Rightarrow> node option" where
  "node_at fs p = (if p = [] then Some Directory else fs p)"

definition parent :: "path \<Rightarrow> path" where
  "parent p = butlast p"

definition path_exists :: "fs \<Rightarrow> path \<Rightarrow> bool" where
  "path_exists fs p \<longleftrightarrow> (case node_at fs p of None \<Rightarrow> False | Some n \<Rightarrow> True)"

definition is_dir :: "fs \<Rightarrow> path \<Rightarrow> bool" where
  "is_dir fs p \<longleftrightarrow> (case node_at fs p of Some Directory \<Rightarrow> True | _ \<Rightarrow> False)"

definition is_file :: "fs \<Rightarrow> path \<Rightarrow> bool" where
  "is_file fs p \<longleftrightarrow> (case node_at fs p of Some (DbFile db) \<Rightarrow> True | _ \<Rightarrow> False)"

text \<open>\<^verbatim>\<open>os.mkdir(p)\<close>: creates one directory, or fails and changes nothing.\<close>

definition os_mkdir :: "fs \<Rightarrow> path \<Rightarrow> error + fs" where
  "os_mkdir fs p =
     (case node_at fs p of
        Some n \<Rightarrow> Inl FileExistsError
      | None \<Rightarrow>
          (case node_at fs (parent p) of
             None \<Rightarrow> Inl FileNotFoundError
           | Some (DbFile db) \<Rightarrow> Inl NotADirectoryError
           | Some Directory \<Rightarrow> Inr (fs(p \<mapsto> Directory))))"

text \<open>
  \<^verbatim>\<open>Path.mkdir(parents, exist_ok)\<close> of pathlib: on FileNotFoundError the parent is made
  first (with \<^verbatim>\<open>parents=True, exist_ok=True\<close>) and the directory is made again without
  \<^verbatim>\<open>parents\<close>; any other OSError is swallowed exactly when \<^verbatim>\<open>exist_ok\<close> holds and the
  path is a directory.
\<close>

function mkdir :: "bool \<Rightarrow> bool \<Rightarrow> fs \<Rightarrow> path \<Rightarrow> error option \<times> fs" where
  "mkdir parents exist_ok fs p =
     (case os_mkdir fs p of
        Inr fs' \<Rightarrow> (None, fs')
      | Inl e \<Rightarrow>
          if e = FileNotFoundError then
            (if \<not> parents \<or> parent p = p then (Some e, fs)
             else (case mkdir True True fs (parent p) of
                     (Some e', fs') \<Rightarrow> (Some e', fs')
                   | (None, fs') \<Rightarrow> mkdir False exist_ok fs' p))
          else if \<not> exist_ok \<or> \<not> is_dir fs p then (Some e, fs)
          else (None, fs))"
  by pat_completeness auto
termination
proof (relation "measure (\<lambda>(parents, exist_ok, fs, p). 2 * length p + (if parents then 1 else 0))")
  show "wf (measure (\<lambda>(parents, exist_ok, fs, p). 2 * length p + (if parents then 1 else 0)))"
    by simp
next
  fix parents exist_ok :: bool and fs :: fs and p :: path and e :: error
  assume "\<not> (\<not> parents \<or> parent p = p)"
  then have "0 < length p" and "parents" by (auto simp: parent_def)
  then show "((True, True, fs, parent p), (parents, exist_ok, fs, p))
      \<in> measure (\<lambda>(parents, exist_ok, fs, p). 2 * length p + (if parents then 1 else 0))"
    by (simp add: parent_def)
next
  fix parents exist_ok :: bool and fs :: fs and p :: path and e :: error
    and x :: "error option \<times> fs" and fs' :: fs and y :: "error option"
  assume "\<not> (\<not> parents \<or> parent p = p)"
  then show "((False, exist_ok, fs', p), (parents, exist_ok, fs, p))
      \<in> measure (\<lambda>(parents, exist_ok, fs, p). 2 * length p + (if parents then 1 else 0))"
    by simp
qed

text \<open>
  \<^verbatim>\<open>sqlite3.connect(p)\<close>: opens the database file at \<^verbatim>\<open>p\<close>, creating an empty one when
  nothing is there and the parent is a directory; a directory cannot be opened.
\<close>

definition connect :: "fs \<Rightarrow> path \<Rightarrow> error + database" where
  "connect fs p =
     (case node_at fs p of
        Some Directory \<Rightarrow> Inl (OperationalError UnableToOpen)
      | Some (DbFile db) \<Rightarrow> Inr db
      | None \<Rightarrow>
          (if is_dir fs (parent p) then Inr Map.empty
           else Inl (OperationalError UnableToOpen)))"

section \<open>The document store\<close>

text \<open>
  The codec of the payload column is Python's \<^verbatim>\<open>json\<close> module, which is not part of the
  repository: \<^verbatim>\<open>json.dumps\<close> and \<^verbatim>\<open>json.loads\<close> are parameters \<open>dumps\<close> and \<open>loads\<close> of
  every operation, and \<open>loads\<close> gives \<open>None\<close> where \<^verbatim>\<open>json.loads\<close> raises JSONDecodeError.

  A connection runs in the default transaction mode of \<^verbatim>\<open>sqlite3\<close>: a CREATE TABLE outside
  a transaction is committed at once; the first DELETE opens a transaction that holds every
  later statement until \<^verbatim>\<open>commit()\<close>; \<^verbatim>\<open>close()\<close> without a commit rolls the open
  transaction back.
\<close>

definition ensure_docstore_schema :: "database \<Rightarrow> error + database" where
  "ensure_docstore_schema connection =
     bind_res (create_table True ''documents'' connection) (\<lambda>c1.
     bind_res (create_table True ''ref_doc_info'' c1) (\<lambda>c2.
     create_table True ''metadata'' c2))"

text \<open>
  One block of the writer: \<^verbatim>\<open>DELETE FROM t\<close>, then, when the value is truthy, one
  \<^verbatim>\<open>INSERT OR REPLACE\<close> per item of \<^verbatim>\<open>value.items()\<close>.
\<close>

definition clear_and_fill :: "(json \<Rightarrow> string) \<Rightarrow> string \<Rightarrow> json \<Rightarrow> database \<Rightarrow> error + database" where
  "clear_and_fill dumps t v db =
     bind_res (delete_from t db) (\<lambda>db1.
       if truthy v then bind_res (items v) (\<lambda>kvs. executemany dumps t kvs db1)
       else Inr db1)"

text \<open>The statements of \<^verbatim>\<open>_write_docstore\<close> between the schema and the commit.\<close>

definition docstore_transaction :: "(json \<Rightarrow> string) \<Rightarrow> pydict \<Rightarrow> database \<Rightarrow> error + database" where
  "docstore_transaction dumps data db =
     (let docs = dict_get data ''documents'' (JObj []) in
      bind_res (clear_and_fill dumps ''documents'' docs db) (\<lambda>db1.
      let ref_docs = dict_get data ''ref_doc_info'' (JObj []) in
      bind_res (clear_and_fill dumps ''ref_doc_info'' ref_docs db1) (\<lambda>db2.
      let extra = filter (\<lambda>(k, v). k \<notin> {''documents'', ''ref_doc_info''}) data in
      clear_and_fill dumps ''metadata'' (JObj extra) db2)))"

text \<open>
  \<^verbatim>\<open>_write_docstore\<close>. The result is the exception raised, if any, and the file system
  left behind: the schema is on disk as soon as it is created, the rows only after the
  commit.
\<close>

definition write_docstore :: "(json \<Rightarrow> string) \<Rightarrow> fs \<Rightarrow> path \<Rightarrow> pydict \<Rightarrow> error option \<times> fs" where
  "write_docstore dumps fs db_path data =
     (case mkdir True True fs (parent db_path) of
        (Some e, fs1) \<Rightarrow> (Some e, fs1)
      | (None, fs1) \<Rightarrow>
          (case connect fs1 db_path of
             Inl e \<Rightarrow> (Some e, fs1)
           | Inr connection \<Rightarrow>
               (case ensure_docstore_schema connection of
                  Inl e \<Rightarrow> (Some e, fs1(db_path \<mapsto> DbFile connection))
                | Inr db1 \<Rightarrow>
                    (case docstore_transaction dumps data db1 of
                       Inl e \<Rightarrow> (Some e, fs1(db_path \<mapsto> DbFile db1))
                     | Inr db2 \<Rightarrow> (None, fs1(db_path \<mapsto> DbFile db2))))))"

text \<open>
  A loop \<^verbatim>\<open>for key, payload in rows: d[key] = json.loads(payload)\<close>; the first payload
  that does not decode raises.
\<close>

fun load_rows :: "(string \<Rightarrow> json option) \<Rightarrow> table \<Rightarrow> pydict \<Rightarrow> error + pydict" where
  "load_rows loads [] d = Inr d"
| "load_rows loads ((k, payload) # rows) d =
     (case loads payload of
        None \<Rightarrow> Inl JSONDecodeError
      | Some v \<Rightarrow> load_rows loads rows (AList.update k v d))"

text \<open>The three loops of \<^verbatim>\<open>_read_docstore\<close>, in their order.\<close>

definition docstore_rows :: "(string \<Rightarrow> json option) \<Rightarrow> database \<Rightarrow> error + pydict" where
  "docstore_rows loads db =
     bind_res (select_all ''documents'' db) (\<lambda>rows1.
     bind_res (load_rows loads rows1 []) (\<lambda>documents.
     bind_res (select_all ''ref_doc_info'' db) (\<lambda>rows2.
     bind_res (load_rows loads rows2 []) (\<lambda>ref_doc_info.
     bind_res (select_all ''metadata'' db) (\<lambda>rows3.
     load_rows loads rows3
       [(''documents'', JObj documents), (''ref_doc_info'', JObj ref_doc_info)])))))"

definition read_docstore :: "(string \<Rightarrow> json option) \<Rightarrow> fs \<Rightarrow> path \<Rightarrow> (error + pydict) \<times> fs" where
  "read_docstore loads fs db_path =
     (if \<not> path_exists fs db_path then (Inl FileNotFoundError, fs)
      else
        (case connect fs db_path of
           Inl e \<Rightarrow> (Inl e, fs)
         | Inr connection \<Rightarrow>
             (case ensure_docstore_schema connection of
                Inl e \<Rightarrow> (Inl e, fs)
              | Inr db1 \<Rightarrow> (docstore_rows loads db1, fs(db_path \<mapsto> DbFile db1)))))"

section \<open>The index store\<close>

definition indexstore_transaction :: "(json \<Rightarrow> string) \<Rightarrow> pydict \<Rightarrow> database \<Rightarrow> error + database" where
  "indexstore_transaction dumps data db =
     bind_res (delete_from ''index_metadata'' db) (\<lambda>db1.
       if data \<noteq> [] then executemany dumps ''index_metadata'' data db1 else Inr db1)"

definition write_indexstore :: "(json \<Rightarrow> string) \<Rightarrow> fs \<Rightarrow> path \<Rightarrow> pydict \<Rightarrow> error option \<times> fs" where
  "write_indexstore dumps fs db_path data =
     (case mkdir True True fs (parent db_path) of
        (Some e, fs1) \<Rightarrow> (Some e, fs1)
      | (None, fs1) \<Rightarrow>
          (case connect fs1 db_path of
             Inl e \<Rightarrow> (Some e, fs1)
           | Inr connection \<Rightarrow>
               (case create_table True ''index_metadata'' connection of
                  Inl e \<Rightarrow> (Some e, fs1(db_path \<mapsto> DbFile connection))
                | Inr db1 \<Rightarrow>
                    (case indexstore_transaction dumps data db1 of
                       Inl e \<Rightarrow> (Some e, fs1(db_path \<mapsto> DbFile db1))
                     | Inr db2 \<Rightarrow> (None, fs1(db_path \<mapsto> DbFile db2))))))"

definition indexstore_rows :: "(string \<Rightarrow> json option) \<Rightarrow> database \<Rightarrow> error + pydict" where
  "indexstore_rows loads db =
     bind_res (select_all ''index_metadata'' db) (\<lambda>rows. load_rows loads rows [])"

definition read_indexstore :: "(string \<Rightarrow> json option) \<Rightarrow> fs \<Rightarrow> path \<Rightarrow> (error + pydict) \<times> fs" where
  "read_indexstore loads fs db_path =
     (if \<not> path_exists fs db_path then (Inl FileNotFoundError, fs)
      else
        (case connect fs db_path of
           Inl e \<Rightarrow> (Inl e, fs)
         | Inr connection \<Rightarrow>
             (case create_table True ''index_metadata'' connection of
                Inl e \<Rightarrow> (Inl e, fs)
              | Inr db1 \<Rightarrow> (indexstore_rows loads db1, fs(db_path \<mapsto> DbFile db1)))))"

section \<open>The store classes\<close>

text \<open>
  \<^verbatim>\<open>SimpleDocumentStore\<close> and \<^verbatim>\<open>SimpleIndexStore\<close> belong to a library: their state is a
  type parameter, and their \<^verbatim>\<open>from_dict\<close> and \<^verbatim>\<open>to_dict\<close> are parameters of the methods.
  The subclass adds the attribute \<^verbatim>\<open>_db_path\<close>, which is \<^verbatim>\<open>None\<close> in a fresh instance.
\<close>

record 'b store =
  base :: 'b
  db_path :: "path option"

definition DOCSTORE_DB :: string where
  "DOCSTORE_DB = ''docstore.sqlite''"

definition INDEXSTORE_DB :: string where
  "INDEXSTORE_DB = ''indexstore.sqlite''"

text \<open>\<^verbatim>\<open>db_name or DEFAULT\<close>: \<^verbatim>\<open>None\<close> and the empty string are both falsy.\<close>

definition name_or :: "string option \<Rightarrow> string \<Rightarrow> string" where
  "name_or db_name dflt =
     (case db_name of None \<Rightarrow> dflt | Some n \<Rightarrow> if n = [] then dflt else n)"

text \<open>
  \<^verbatim>\<open>Path(persist_dir) / name\<close> for a name of one component; joining the empty string
  leaves the path as it is.
\<close>

definition joinpath :: "path \<Rightarrow> string \<Rightarrow> path" where
  "joinpath d n = (if n = [] then d else d @ [n])"

definition docstore_from_persist_dir ::
  "(string \<Rightarrow> json option) \<Rightarrow> (pydict \<Rightarrow> error + 'b) \<Rightarrow> fs \<Rightarrow> path \<Rightarrow> string option
     \<Rightarrow> (error + 'b store) \<times> fs" where
  "docstore_from_persist_dir loads from_dict fs persist_dir db_name =
     (let p = joinpath persist_dir (name_or db_name DOCSTORE_DB) in
      case read_docstore loads fs p of
        (Inl e, fs') \<Rightarrow> (Inl e, fs')
      | (Inr data, fs') \<Rightarrow>
          (case from_dict data of
             Inl e \<Rightarrow> (Inl e, fs')
           | Inr base_store \<Rightarrow> (Inr \<lparr>base = base_store, db_path = Some p\<rparr>, fs')))"

definition docstore_persist ::
  "(json \<Rightarrow> string) \<Rightarrow> ('b \<Rightarrow> pydict) \<Rightarrow> 'b store \<Rightarrow> fs \<Rightarrow> path \<Rightarrow> string option
     \<Rightarrow> (error + 'b store) \<times> fs" where
  "docstore_persist dumps to_dict self fs persist_dir db_name =
     (let p = joinpath persist_dir (name_or db_name DOCSTORE_DB) in
      case write_docstore dumps fs p (to_dict (base self)) of
        (Some e, fs') \<Rightarrow> (Inl e, fs')
      | (None, fs') \<Rightarrow> (Inr (self\<lparr>db_path := Some p\<rparr>), fs'))"

definition indexstore_from_persist_dir ::
  "(string \<Rightarrow> json option) \<Rightarrow> (pydict \<Rightarrow> error + 'b) \<Rightarrow> fs \<Rightarrow> path \<Rightarrow> string option
     \<Rightarrow> (error + 'b store) \<times> fs" where
  "indexstore_from_persist_dir loads from_dict fs persist_dir db_name =
     (let p = joinpath persist_dir (name_or db_name INDEXSTORE_DB) in
      case read_indexstore loads fs p of
        (Inl e, fs') \<Rightarrow> (Inl e, fs')
      | (Inr data, fs') \<Rightarrow>
          (case from_dict data of
             Inl e \<Rightarrow> (Inl e, fs')
           | Inr base_store \<Rightarrow> (Inr \<lparr>base = base_store, db_path = Some p\<rparr>, fs')))"

definition indexstore_persist ::
  "(json \<Rightarrow> string) \<Rightarrow> ('b \<Rightarrow> pydict) \<Rightarrow> 'b store \<Rightarrow> fs \<Rightarrow> path \<Rightarrow> string option
     \<Rightarrow> (error + 'b store) \<times> fs" where
  "indexstore_persist dumps to_dict self fs persist_dir db_name =
     (let p = joinpath persist_dir (name_or db_name INDEXSTORE_DB) in
      case write_indexstore dumps fs p (to_dict (base self)) of
        (Some e, fs') \<Rightarrow> (Inl e, fs')
      | (None, fs') \<Rightarrow> (Inr (self\<lparr>db_path := Some p\<rparr>), fs'))"

section \<open>Vocabulary of the properties\<close>

text \<open>
  The conditions under which a write can go through, the shape of a snapshot, and what a
  write leaves in the tables.
\<close>

definition docstore_tables :: "string set" where
  "docstore_tables = {''documents'', ''ref_doc_info'', ''metadata''}"

text \<open>No ancestor of the directory, nor the directory itself, is a file.\<close>

definition ancestors_ok :: "fs \<Rightarrow> path \<Rightarrow> bool" where
  "ancestors_ok fs d \<longleftrightarrow> (\<forall>n \<in> set [0..<Suc (length d)]. \<not> is_file fs (take n d))"

text \<open>
  The database file can be created or opened at \<open>p\<close>: the parent directory can be made,
  and \<open>p\<close> itself is not a directory.
\<close>

definition can_persist :: "fs \<Rightarrow> path \<Rightarrow> bool" where
  "can_persist fs p \<longleftrightarrow> ancestors_ok fs (parent p) \<and> \<not> is_dir fs p"

definition is_mapping :: "json \<Rightarrow> bool" where
  "is_mapping v = (case v of JObj kvs \<Rightarrow> True | _ \<Rightarrow> False)"

definition mapping_items :: "json \<Rightarrow> pydict" where
  "mapping_items v = (case v of JObj kvs \<Rightarrow> kvs | _ \<Rightarrow> [])"

text \<open>The top-level entries other than the two namespaces.\<close>

definition extras :: "pydict \<Rightarrow> pydict" where
  "extras data = filter (\<lambda>(k, v). k \<notin> {''documents'', ''ref_doc_info''}) data"

text \<open>
  A snapshot in the sense of the writer's contract: \<^verbatim>\<open>documents\<close> and \<^verbatim>\<open>ref_doc_info\<close>,
  where present, are mappings.
\<close>

definition snapshot_shape :: "pydict \<Rightarrow> bool" where
  "snapshot_shape data \<longleftrightarrow>
     is_mapping (dict_get data ''documents'' (JObj [])) \<and>
     is_mapping (dict_get data ''ref_doc_info'' (JObj []))"

text \<open>A Python dict has no duplicate keys.\<close>

definition dict_ok :: "json \<Rightarrow> bool" where
  "dict_ok v = (case v of JObj kvs \<Rightarrow> distinct (map fst kvs) | _ \<Rightarrow> False)"

definition snapshot_ok :: "pydict \<Rightarrow> bool" where
  "snapshot_ok data \<longleftrightarrow>
     distinct (map fst data) \<and>
     dict_ok (dict_get data ''documents'' (JObj [])) \<and>
     dict_ok (dict_get data ''ref_doc_info'' (JObj []))"

text \<open>The values that the document-store writer encodes, one per row.\<close>

definition payloads :: "pydict \<Rightarrow> json list" where
  "payloads data =
     map snd (mapping_items (dict_get data ''documents'' (JObj []))) @
     map snd (mapping_items (dict_get data ''ref_doc_info'' (JObj []))) @
     map snd (extras data)"

text \<open>
  The contract of the codec on the values \<open>vs\<close>: decoding the encoding of a value gives
  the value back.
\<close>

definition decodes_back :: "(json \<Rightarrow> string) \<Rightarrow> (string \<Rightarrow> json option) \<Rightarrow> json list \<Rightarrow> bool" where
  "decodes_back dumps loads vs \<longleftrightarrow> (\<forall>v \<in> set vs. loads (dumps v) = Some v)"

text \<open>\<^verbatim>\<open>d.setdefault(k, v)\<close>: an absent key is added, a present one is kept.\<close>

definition setdefault :: "pydict \<Rightarrow> string \<Rightarrow> json \<Rightarrow> pydict" where
  "setdefault d k v = (if k \<in> set (map fst d) then d else d @ [(k, v)])"

text \<open>The rows of a table after the items of a dict have been inserted one by one.\<close>

fun insert_rows :: "(json \<Rightarrow> string) \<Rightarrow> table \<Rightarrow> pydict \<Rightarrow> table" where
  "insert_rows dumps rows [] = rows"
| "insert_rows dumps rows ((k, v) # kvs) =
     insert_rows dumps (filter (\<lambda>r'. fst r' \<noteq> k) rows @ [(k, dumps v)]) kvs"

definition encode_rows :: "(json \<Rightarrow> string) \<Rightarrow> pydict \<Rightarrow> table" where
  "encode_rows dumps kvs = map (\<lambda>(k, v). (k, dumps v)) kvs"

text \<open>The database found at a path: an absent file starts as the empty database.\<close>

definition db_before :: "fs \<Rightarrow> path \<Rightarrow> database" where
  "db_before fs p = (case fs p of Some (DbFile db) \<Rightarrow> db | _ \<Rightarrow> Map.empty)"

text \<open>The rows of one table of the file at a path; no file or no table means no rows.\<close>

definition table_rows :: "fs \<Rightarrow> path \<Rightarrow> string \<Rightarrow> table" where
  "table_rows fs p t =
     (case fs p of
        Some (DbFile db) \<Rightarrow> (case db t of Some rows \<Rightarrow> rows | None \<Rightarrow> [])
      | _ \<Rightarrow> [])"

definition docstore_schema :: "database \<Rightarrow> database" where
  "docstore_schema db = (\<lambda>t. if t \<in> docstore_tables \<and> db t = None then Some [] else db t)"

definition indexstore_schema :: "database \<Rightarrow> database" where
  "indexstore_schema db = (\<lambda>t. if t = ''index_metadata'' \<and> db t = None then Some [] else db t)"

definition stored_docstore :: "(json \<Rightarrow> string) \<Rightarrow> pydict \<Rightarrow> database \<Rightarrow> database" where
  "stored_docstore dumps data db =
     db(''documents'' \<mapsto>
          insert_rows dumps [] (mapping_items (dict_get data ''documents'' (JObj []))),
        ''ref_doc_info'' \<mapsto>
          insert_rows dumps [] (mapping_items (dict_get data ''ref_doc_info'' (JObj []))),
        ''metadata'' \<mapsto> insert_rows dumps [] (extras data))"

text \<open>
  Calls made one after the other against one path: each is a persist of some snapshot or
  a hydrate. The run gives the exception of every call, if any, and the final file system.
\<close>

datatype store_op = Persist pydict | Hydrate

fun run_docstore ::
  "(json \<Rightarrow> string) \<Rightarrow> (string \<Rightarrow> json option) \<Rightarrow> path \<Rightarrow> store_op list \<Rightarrow> fs
     \<Rightarrow> error option list \<times> fs" where
  "run_docstore dumps loads p [] fs = ([], fs)"
| "run_docstore dumps loads p (Persist data # ops) fs =
     (case write_docstore dumps fs p data of
        (r, fs1) \<Rightarrow> (case run_docstore dumps loads p ops fs1 of (rs, fs2) \<Rightarrow> (r # rs, fs2)))"
| "run_docstore dumps loads p (Hydrate # ops) fs =
     (case read_docstore loads fs p of
        (r, fs1) \<Rightarrow>
          (case run_docstore dumps loads p ops fs1 of
             (rs, fs2) \<Rightarrow> ((case r of Inl e \<Rightarrow> Some e | Inr data \<Rightarrow> None) # rs, fs2)))"

fun run_indexstore ::
  "(json \<Rightarrow> string) \<Rightarrow> (string \<Rightarrow> json option) \<Rightarrow> path \<Rightarrow> store_op list \<Rightarrow> fs
     \<Rightarrow> error option list \<times> fs" where
  "run_indexstore dumps loads p [] fs = ([], fs)"
| "run_indexstore dumps loads p (Persist data # ops) fs =
     (case write_indexstore dumps fs p data of
        (r, fs1) \<Rightarrow> (case run_indexstore dumps loads p ops fs1 of (rs, fs2) \<Rightarrow> (r # rs, fs2)))"
| "run_indexstore dumps loads p (Hydrate # ops) fs =
     (case read_indexstore loads fs p of
        (r, fs1) \<Rightarrow>
          (case run_indexstore dumps loads p ops fs1 of
             (rs, fs2) \<Rightarrow> ((case r of Inl e \<Rightarrow> Some e | Inr data \<Rightarrow> None) # rs, fs2)))"

text \<open>Every persist of a run returned normally.\<close>

fun persists_succeed :: "store_op list \<Rightarrow> error option list \<Rightarrow> bool" where
  "persists_succeed [] [] = True"
| "persists_succeed (Persist data # ops) (r # rs) = (r = None \<and> persists_succeed ops rs)"
| "persists_succeed (Hydrate # ops) (r # rs) = persists_succeed ops rs"
| "persists_succeed _ _ = False"

text \<open>Every persist of a run is given a snapshot.\<close>

fun snapshots_only :: "store_op list \<Rightarrow> bool" where
  "snapshots_only [] = True"
| "snapshots_only (Persist data # ops) = (snapshot_shape data \<and> snapshots_only ops)"
| "snapshots_only (Hydrate # ops) = snapshots_only ops"

text \<open>
  The states through which repeated calls pass: the file can be created, or it is there
  under its directory.
\<close>

definition persistable :: "fs \<Rightarrow> path \<Rightarrow> bool" where
  "persistable fs p \<longleftrightarrow>
     can_persist fs p \<or> (p \<noteq> [] \<and> is_dir fs (parent p) \<and> is_file fs p)"

section \<open>A codec instance\<close>

text \<open>
  Python's \<^verbatim>\<open>json\<close> module is a library and not part of the repository, so the operations
  above take the codec as the parameters \<open>dumps\<close> and \<open>loads\<close>. The instance below prints
  and parses the JSON text of the values of type \<^typ>\<open>json\<close> (strings escape the double
  quote and the backslash). It is used only where a property is evaluated on concrete
  inputs.
\<close>

definition dquote :: char where "dquote = CHR 0x22"
definition backslash :: char where "backslash = CHR 0x5C"

fun escape :: "string \<Rightarrow> string" where
  "escape [] = []"
| "escape (c # cs) =
     (if c = dquote \<or> c = backslash then backslash # c # escape cs else c # escape cs)"

definition quote :: "string \<Rightarrow> string" where
  "quote s = dquote # escape s @ [dquote]"

function show_nat :: "nat \<Rightarrow> string" where
  "show_nat n =
     (if n < 10 then [''0123456789'' ! n]
      else show_nat (n div 10) @ [''0123456789'' ! (n mod 10)])"
  by pat_completeness auto
termination
  by (relation "measure id") auto

definition show_int :: "int \<Rightarrow> string" where
  "show_int i = (if i < 0 then CHR ''-'' # show_nat (nat (- i)) else show_nat (nat i))"

fun json_dumps :: "json \<Rightarrow> string"
  and dumps_elems :: "json list \<Rightarrow> string"
  and dumps_members :: "(string \<times> json) list \<Rightarrow> string"
  and dumps_member :: "string \<times> json \<Rightarrow> string" where
  "json_dumps JNull = ''null''"
| "json_dumps (JBool b) = (if b then ''true'' else ''false'')"
| "json_dumps (JInt i) = show_int i"
| "json_dumps (JStr s) = quote s"
| "json_dumps (JArr xs) = ''['' @ dumps_elems xs @ '']''"
| "json_dumps (JObj kvs) = ''{'' @ dumps_members kvs @ ''}''"
| "dumps_elems [] = []"
| "dumps_elems (x # xs) = json_dumps x @ (if xs = [] then [] else '', '' @ dumps_elems xs)"
| "dumps_members [] = []"
| "dumps_members (kv # kvs) =
     dumps_member kv @ (if kvs = [] then [] else '', '' @ dumps_members kvs)"
| "dumps_member (k, v) = quote k @ '': '' @ json_dumps v"

definition skip_ws :: "string \<Rightarrow> string" where
  "skip_ws s = dropWhile (\<lambda>c. c = CHR '' '') s"

fun parse_string :: "string \<Rightarrow> (string \<times> string) option" where
  "parse_string [] = None"
| "parse_string (c # cs) =
     (if c = dquote then Some ([], cs)
      else if c = backslash then
        (case cs of
           [] \<Rightarrow> None
         | e # cs' \<Rightarrow> map_option (\<lambda>(s, r). (e # s, r)) (parse_string cs'))
      else map_option (\<lambda>(s, r). (c # s, r)) (parse_string cs))"

definition is_digit :: "char \<Rightarrow> bool" where
  "is_digit c \<longleftrightarrow> c \<in> set ''0123456789''"

definition digit_val :: "char \<Rightarrow> nat" where
  "digit_val c = of_char c - 48"

definition parse_nat :: "string \<Rightarrow> (nat \<times> string) option" where
  "parse_nat s =
     (let ds = takeWhile is_digit s in
      if ds = [] then None
      else Some (foldl (\<lambda>n c. 10 * n + digit_val c) 0 ds, dropWhile is_digit s))"

definition expect :: "string \<Rightarrow> string \<Rightarrow> string option" where
  "expect w s = (if take (length w) s = w then Some (drop (length w) s) else None)"

fun parse_value :: "nat \<Rightarrow> string \<Rightarrow> (json \<times> string) option"
  and parse_elems :: "nat \<Rightarrow> string \<Rightarrow> (json list \<times> string) option"
  and parse_members :: "nat \<Rightarrow> string \<Rightarrow> ((string \<times> json) list \<times> string) option" where
  "parse_value 0 s = None"
| "parse_value (Suc n) s =
     (case skip_ws s of
        [] \<Rightarrow> None
      | c # cs \<Rightarrow>
          if c = CHR ''n'' then map_option (Pair JNull) (expect ''ull'' cs)
          else if c = CHR ''t'' then map_option (Pair (JBool True)) (expect ''rue'' cs)
          else if c = CHR ''f'' then map_option (Pair (JBool False)) (expect ''alse'' cs)
          else if c = dquote then map_option (\<lambda>(s, r). (JStr s, r)) (parse_string cs)
          else if c = CHR ''-'' then map_option (\<lambda>(k, r). (JInt (- int k), r)) (parse_nat cs)
          else if is_digit c then map_option (\<lambda>(k, r). (JInt (int k), r)) (parse_nat (c # cs))
          else if c = CHR ''['' then
            (case expect '']'' (skip_ws cs) of
               Some r \<Rightarrow> Some (JArr [], r)
             | None \<Rightarrow> map_option (\<lambda>(xs, r). (JArr xs, r)) (parse_elems n cs))
          else if c = CHR ''{'' then
            (case expect ''}'' (skip_ws cs) of
               Some r \<Rightarrow> Some (JObj [], r)
             | None \<Rightarrow> map_option (\<lambda>(kvs, r). (JObj kvs, r)) (parse_members n cs))
          else None)"
| "parse_elems 0 s = None"
| "parse_elems (Suc n) s =
     (case parse_value n s of
        None \<Rightarrow> None
      | Some (v, r) \<Rightarrow>
          (case skip_ws r of
             [] \<Rightarrow> None
           | c # r' \<Rightarrow>
               if c = CHR '']'' then Some ([v], r')
               else if c = CHR '','' then map_option (\<lambda>(vs, r''). (v # vs, r'')) (parse_elems n r')
               else None))"
| "parse_members 0 s = None"
| "parse_members (Suc n) s =
     (case expect [dquote] (skip_ws s) of
        None \<Rightarrow> None
      | Some s1 \<Rightarrow>
          (case parse_string s1 of
             None \<Rightarrow> None
           | Some (k, s2) \<Rightarrow>
               (case expect '':'' (skip_ws s2) of
                  None \<Rightarrow> None
                | Some s3 \<Rightarrow>
                    (case parse_value n s3 of
                       None \<Rightarrow> None
                     | Some (v, r) \<Rightarrow>
                         (case skip_ws r of
                            [] \<Rightarrow> None
                          | c # r' \<Rightarrow>
                              if c = CHR ''}'' then Some ([(k, v)], r')
                              else if c = CHR '','' then
                                map_option (\<lambda>(kvs, r''). ((k, v) # kvs, r'')) (parse_members n r')
                              else None)))))"

definition json_loads :: "string \<Rightarrow> json option" where
  "json_loads s =
     (case parse_value (2 * length s + 2) s of
        None \<Rightarrow> None
      | Some (v, r) \<Rightarrow> if skip_ws r = [] then Some v else None)"

section \<open>Concrete inputs\<close>

definition empty_fs :: fs where
  "empty_fs = Map.empty"

definition store_dir :: path where
  "store_dir = [''store'']"

definition store_path :: path where
  "store_path = [''store'', ''docstore.sqlite'']"

definition index_path :: path where
  "index_path = [''store'', ''indexstore.sqlite'']"

definition scenario_A :: pydict where
  "scenario_A =
     [(''documents'', JObj [(''d1'', JObj [(''text'', JStr ''hello'')])]),
      (''ref_doc_info'', JObj [])]"

definition scenario_B :: pydict where
  "scenario_B =
     [(''class_name'', JStr ''X''), (''documents'', JObj []), (''ref_doc_info'', JObj [])]"

definition scenario_C :: pydict where
  "scenario_C = [(''index_1'', JObj [(''type'', JStr ''vector'')])]"

definition empty_snapshot :: pydict where
  "empty_snapshot = [(''documents'', JObj []), (''ref_doc_info'', JObj [])]"

text \<open>A snapshot of the in-memory store: its collections are not named as the tables are.\<close>

definition kvstore_snapshot :: pydict where
  "kvstore_snapshot =
     [(''docstore/data'', JObj [(''n1'', JObj [(''text'', JStr ''hello'')])]),
      (''docstore/metadata'', JObj [(''n1'', JObj [(''doc_hash'', JStr ''h'')])])]"

text \<open>A mapping whose \<^verbatim>\<open>ref_doc_info\<close> is a list: \<^verbatim>\<open>.items()\<close> raises on it.\<close>

definition broken_snapshot :: pydict where
  "broken_snapshot =
     [(''documents'', JObj [(''d2'', JStr ''new'')]), (''ref_doc_info'', JArr [JInt 1])]"

text \<open>A file system where a directory sits at the path of the database file.\<close>

definition dir_fs :: fs where
  "dir_fs = [store_dir \<mapsto> Directory, store_path \<mapsto> Directory]"

text \<open>A database whose \<^verbatim>\<open>ref_doc_info\<close> table holds a payload that is not JSON.\<close>

definition corrupt_db :: database where
  "corrupt_db =
     [''documents'' \<mapsto> [(''d1'', ''{}'')], ''ref_doc_info'' \<mapsto> [(''r1'', ''{bad'')]]"

definition corrupt_fs :: fs where
  "corrupt_fs = [store_dir \<mapsto> Directory, store_path \<mapsto> DbFile corrupt_db]"

definition corrupt_index_db :: database where
  "corrupt_index_db = [''index_metadata'' \<mapsto> [(''index_1'', ''[1, 2'')]]"

definition corrupt_index_fs :: fs where
  "corrupt_index_fs = [store_dir \<mapsto> Directory, index_path \<mapsto> DbFile corrupt_index_db]"

text \<open>The file system left by a first persist of scenario A.\<close>

definition seeded_fs :: fs where
  "seeded_fs = snd (write_docstore json_dumps empty_fs store_path scenario_A)"

text \<open>A store whose state is trivial, with its \<^verbatim>\<open>to_dict\<close> and \<^verbatim>\<open>from_dict\<close>.\<close>

definition fresh_store :: "unit store" where
  "fresh_store = \<lparr>base = (), db_path = None\<rparr>"

definition unit_to_dict :: "unit \<Rightarrow> pydict" where
  "unit_to_dict u = scenario_A"

definition unit_from_dict :: "pydict \<Rightarrow> error + unit" where
  "unit_from_dict data = Inr ()"

definition call_sequence :: "store_op list" where
  "call_sequence = [Hydrate, Persist scenario_A, Hydrate, Persist scenario_B, Hydrate]"

section \<open>Statements and tables\<close>

declare mkdir.simps [simp del]

lemma create_table_True:
  "create_table True t db = Inr (case db t of None \<Rightarrow> db(t \<mapsto> []) | Some rows \<Rightarrow> db)"
  by (simp add: create_table_def split: option.splits)

lemma ensure_schema: "ensure_docstore_schema db = Inr (docstore_schema db)"
  by (auto simp: ensure_docstore_schema_def create_table_True bind_res_def docstore_tables_def
      docstore_schema_def fun_eq_iff split: option.splits)

lemma create_index_table: "create_table True ''index_metadata'' db = Inr (indexstore_schema db)"
  by (auto simp: create_table_True indexstore_schema_def fun_eq_iff split: option.splits)

lemma docstore_schema_tables: "t \<in> docstore_tables \<Longrightarrow> docstore_schema db t \<noteq> None"
  by (simp add: docstore_schema_def)

lemma docstore_schema_full:
  "\<forall>t \<in> docstore_tables. db t \<noteq> None \<Longrightarrow> docstore_schema db = db"
  by (auto simp: docstore_schema_def fun_eq_iff)

lemma docstore_schema_idem: "docstore_schema (docstore_schema db) = docstore_schema db"
  by (auto simp: docstore_schema_def fun_eq_iff)

lemma indexstore_schema_idem: "indexstore_schema (indexstore_schema db) = indexstore_schema db"
  by (auto simp: indexstore_schema_def fun_eq_iff)

lemma executemany_eq:
  "db t = Some rows \<Longrightarrow> executemany dumps t kvs db = Inr (db(t \<mapsto> insert_rows dumps rows kvs))"
  by (induction kvs arbitrary: db rows) (auto simp: insert_or_replace_def bind_res_def)

lemma insert_rows_distinct:
  "distinct (map fst kvs) \<Longrightarrow> fst ` set rows \<inter> fst ` set kvs = {} \<Longrightarrow>
   insert_rows dumps rows kvs = rows @ encode_rows dumps kvs"
proof (induction kvs arbitrary: rows)
  case Nil
  then show ?case by (simp add: encode_rows_def)
next
  case (Cons kv kvs)
  obtain k v where kv: "kv = (k, v)" by (cases kv)
  from Cons.prems have nk: "\<forall>r \<in> set rows. fst r \<noteq> k" by (auto simp: kv)
  then have f: "filter (\<lambda>r'. fst r' \<noteq> k) rows = rows" by (simp add: filter_id_conv)
  from Cons.prems have "fst ` set (rows @ [(k, dumps v)]) \<inter> fst ` set kvs = {}"
    by (auto simp: kv)
  with Cons.IH[of "rows @ [(k, dumps v)]"] Cons.prems show ?case
    by (simp add: kv f encode_rows_def)
qed

lemma insert_rows_encode:
  "distinct (map fst kvs) \<Longrightarrow> insert_rows dumps [] kvs = encode_rows dumps kvs"
  using insert_rows_distinct[of kvs "[]" dumps] by simp

lemma load_rows_encode:
  "distinct (map fst kvs) \<Longrightarrow> fst ` set d \<inter> fst ` set kvs = {} \<Longrightarrow>
   \<forall>v \<in> set (map snd kvs). loads (dumps v) = Some v \<Longrightarrow>
   load_rows loads (encode_rows dumps kvs) d = Inr (d @ kvs)"
proof (induction kvs arbitrary: d)
  case Nil
  then show ?case by (simp add: encode_rows_def)
next
  case (Cons kv kvs)
  obtain k v where kv: "kv = (k, v)" by (cases kv)
  from Cons.prems have nk: "k \<notin> fst ` set d" by (auto simp: kv)
  then have u: "AList.update k v d = d @ [(k, v)]"
    by (induction d) auto
  from Cons.prems have "fst ` set (d @ [(k, v)]) \<inter> fst ` set kvs = {}"
    by (auto simp: kv)
  with Cons.IH[of "d @ [(k, v)]"] Cons.prems show ?case
    by (simp add: kv u encode_rows_def)
qed

lemma load_rows_malformed:
  "(k, payload) \<in> set rows \<Longrightarrow> loads payload = None \<Longrightarrow>
   load_rows loads rows d = Inl JSONDecodeError"
  by (induction rows arbitrary: d) (auto split: option.splits)

lemma load_rows_error: "load_rows loads rows d = Inl e \<Longrightarrow> e = JSONDecodeError"
  by (induction rows arbitrary: d) (auto split: option.splits)

lemma clear_and_fill_Inr:
  "clear_and_fill dumps t v db = Inr db' \<Longrightarrow>
   db' = db(t \<mapsto> insert_rows dumps [] (mapping_items v))"
  by (cases v)
    (auto simp: clear_and_fill_def delete_from_def bind_res_def mapping_items_def executemany_eq
      split: option.splits if_splits)

lemma clear_and_fill_mapping:
  "db t \<noteq> None \<Longrightarrow> is_mapping v \<Longrightarrow>
   clear_and_fill dumps t v db = Inr (db(t \<mapsto> insert_rows dumps [] (mapping_items v)))"
  by (cases v)
    (auto simp: clear_and_fill_def delete_from_def bind_res_def mapping_items_def executemany_eq
      is_mapping_def split: option.splits if_splits)

lemma docstore_transaction_Inr:
  "docstore_transaction dumps data db = Inr db' \<Longrightarrow> db' = stored_docstore dumps data db"
  unfolding docstore_transaction_def Let_def bind_res_def stored_docstore_def extras_def
  by (auto split: sum.splits dest!: clear_and_fill_Inr simp: mapping_items_def)

lemma docstore_transaction_ok:
  assumes "snapshot_shape data" "\<forall>t \<in> docstore_tables. db t \<noteq> None"
  shows "docstore_transaction dumps data db = Inr (stored_docstore dumps data db)"
proof -
  from assms have t: "db ''documents'' \<noteq> None" "db ''ref_doc_info'' \<noteq> None"
    "db ''metadata'' \<noteq> None"
    by (auto simp: docstore_tables_def)
  from assms have m: "is_mapping (dict_get data ''documents'' (JObj []))"
    "is_mapping (dict_get data ''ref_doc_info'' (JObj []))"
    by (auto simp: snapshot_shape_def)
  have e: "is_mapping (JObj xs)" for xs by (simp add: is_mapping_def)
  show ?thesis
    unfolding docstore_transaction_def Let_def stored_docstore_def extras_def
    using t m
    by (simp add: clear_and_fill_mapping bind_res_def e) (simp add: mapping_items_def)
qed

lemma stored_docstore_tables:
  "stored_docstore dumps data db ''documents'' =
     Some (insert_rows dumps [] (mapping_items (dict_get data ''documents'' (JObj []))))"
  "stored_docstore dumps data db ''ref_doc_info'' =
     Some (insert_rows dumps [] (mapping_items (dict_get data ''ref_doc_info'' (JObj []))))"
  "stored_docstore dumps data db ''metadata'' = Some (insert_rows dumps [] (extras data))"
  by (simp_all add: stored_docstore_def)

lemma stored_docstore_other:
  "t \<notin> docstore_tables \<Longrightarrow> stored_docstore dumps data db t = db t"
  by (simp add: stored_docstore_def docstore_tables_def)

lemma docstore_schema_stored:
  "docstore_schema (stored_docstore dumps data db) = stored_docstore dumps data db"
  by (rule docstore_schema_full) (auto simp: docstore_tables_def stored_docstore_tables)

section \<open>Directories and connections\<close>

lemma os_mkdir_Inr:
  "os_mkdir fs p = Inr fs' \<Longrightarrow> fs' = fs(p \<mapsto> Directory) \<and> p \<noteq> [] \<and> fs p = None"
  by (auto simp: os_mkdir_def node_at_def split: option.splits node.splits if_splits)

lemma mkdir_False:
  "mkdir False b fs p =
     (case os_mkdir fs p of
        Inr fs' \<Rightarrow> (None, fs')
      | Inl e \<Rightarrow> if e \<noteq> FileNotFoundError \<and> b \<and> is_dir fs p then (None, fs) else (Some e, fs))"
  by (subst mkdir.simps) (simp split: sum.splits)

lemma mkdir_True_Nil: "mkdir True True fs [] = (None, fs)"
  by (subst mkdir.simps) (simp add: os_mkdir_def node_at_def is_dir_def)

lemma mkdir_True_snoc:
  "mkdir True True fs (xs @ [x]) =
     (case os_mkdir fs (xs @ [x]) of
        Inr fs' \<Rightarrow> (None, fs')
      | Inl e \<Rightarrow>
          if e = FileNotFoundError then
            (case mkdir True True fs xs of
               (Some e', fs') \<Rightarrow> (Some e', fs')
             | (None, fs') \<Rightarrow> mkdir False True fs' (xs @ [x]))
          else if is_dir fs (xs @ [x]) then (None, fs) else (Some e, fs))"
  by (subst mkdir.simps) (simp add: parent_def split: sum.splits)

lemma mkdir_is_dir: "mkdir True True fs p = (None, fs') \<Longrightarrow> is_dir fs' p"
proof (induction p arbitrary: fs' rule: rev_induct)
  case Nil
  then show ?case by (simp add: is_dir_def node_at_def)
next
  case (snoc x xs)
  from snoc.prems show ?case
    by (auto simp: mkdir_True_snoc mkdir_False is_dir_def node_at_def
        dest!: os_mkdir_Inr split: sum.splits if_splits prod.splits option.splits)
qed

lemma mkdir_frame: "length p < length q \<Longrightarrow> snd (mkdir True True fs p) q = fs q"
proof (induction p rule: rev_induct)
  case Nil
  then show ?case by (simp add: mkdir_True_Nil)
next
  case (snoc x xs)
  then have ih: "snd (mkdir True True fs xs) q = fs q" and ne: "q \<noteq> xs @ [x]" by auto
  then show ?case
    by (auto simp: mkdir_True_snoc mkdir_False dest!: os_mkdir_Inr
        split: sum.splits if_splits prod.splits option.splits)
qed

lemma mkdir_not_FileNotFound: "fst (mkdir True True fs p) \<noteq> Some FileNotFoundError"
proof (induction p rule: rev_induct)
  case Nil
  then show ?case by (simp add: mkdir_True_Nil)
next
  case (snoc x xs)
  have "os_mkdir fs' (xs @ [x]) \<noteq> Inl FileNotFoundError" if "is_dir fs' xs" for fs'
    using that by (auto simp: os_mkdir_def is_dir_def parent_def split: option.splits node.splits)
  with snoc mkdir_is_dir[of fs xs] show ?case
    by (auto simp: mkdir_True_snoc mkdir_False
        split: sum.splits if_splits prod.splits option.splits)
qed

lemma ancestors_ok_snoc: "ancestors_ok fs (xs @ [x]) \<Longrightarrow> ancestors_ok fs xs"
  unfolding ancestors_ok_def
proof (intro ballI)
  fix n assume a: "\<forall>n \<in> set [0..<Suc (length (xs @ [x]))]. \<not> is_file fs (take n (xs @ [x]))"
    and n: "n \<in> set [0..<Suc (length xs)]"
  from n have "n \<le> length xs" by auto
  then have "take n (xs @ [x]) = take n xs" by simp
  moreover from n have "n \<in> set [0..<Suc (length (xs @ [x]))]" by auto
  ultimately show "\<not> is_file fs (take n xs)" using a by metis
qed

lemma ancestors_ok_self: "ancestors_ok fs d \<Longrightarrow> \<not> is_file fs d"
  unfolding ancestors_ok_def by (drule bspec[where x = "length d"]) auto

lemma mkdir_ok: "ancestors_ok fs d \<Longrightarrow> fst (mkdir True True fs d) = None"
proof (induction d rule: rev_induct)
  case Nil
  then show ?case by (simp add: mkdir_True_Nil)
next
  case (snoc x xs)
  from snoc have ih: "fst (mkdir True True fs xs) = None" by (auto dest: ancestors_ok_snoc)
  then obtain fs1 where m: "mkdir True True fs xs = (None, fs1)"
    by (cases "mkdir True True fs xs") auto
  then have d: "is_dir fs1 xs" by (rule mkdir_is_dir)
  have f: "fs1 (xs @ [x]) = fs (xs @ [x])" using mkdir_frame[of xs "xs @ [x]" fs] m by simp
  have nf: "\<not> is_file fs (xs @ [x])" using snoc.prems by (rule ancestors_ok_self)
  have nf': "\<not> is_file fs xs" using snoc.prems by (auto dest: ancestors_ok_snoc ancestors_ok_self)
  show ?case
    using m d f nf nf'
    by (auto simp: mkdir_True_snoc mkdir_False os_mkdir_def is_dir_def is_file_def node_at_def
        parent_def split: sum.splits if_splits prod.splits option.splits node.splits)
qed

lemma mkdir_idem: "is_dir fs d \<Longrightarrow> mkdir True True fs d = (None, fs)"
  by (cases d rule: rev_cases)
    (auto simp: mkdir_True_Nil mkdir_True_snoc os_mkdir_def is_dir_def
      split: option.splits node.splits)

lemma can_persist_nonempty: "can_persist fs p \<Longrightarrow> p \<noteq> []"
  by (auto simp: can_persist_def is_dir_def node_at_def)

lemma connect_after_mkdir:
  assumes "can_persist fs p" "mkdir True True fs (parent p) = (None, fs1)"
  shows "connect fs1 p = Inr (db_before fs p)" and "fs1 p = fs p"
proof -
  from assms(1) have ne: "p \<noteq> []" by (rule can_persist_nonempty)
  then have "length (parent p) < length p" by (simp add: parent_def)
  from mkdir_frame[OF this, of fs] assms(2) show f: "fs1 p = fs p" by simp
  from assms(2) have d: "is_dir fs1 (parent p)" by (rule mkdir_is_dir)
  from assms(1) have "\<not> is_dir fs p" by (simp add: can_persist_def)
  with f ne d show "connect fs1 p = Inr (db_before fs p)"
    by (auto simp: connect_def db_before_def node_at_def is_dir_def
        split: option.splits node.splits)
qed

section \<open>What a write leaves and what a read returns\<close>

lemma write_docstore_ok:
  assumes "can_persist fs p" "snapshot_shape data"
  shows "write_docstore dumps fs p data =
     (None, (snd (mkdir True True fs (parent p)))
              (p \<mapsto> DbFile (stored_docstore dumps data (docstore_schema (db_before fs p)))))"
proof -
  from assms(1) have "fst (mkdir True True fs (parent p)) = None"
    by (simp add: can_persist_def mkdir_ok)
  then obtain fs1 where m: "mkdir True True fs (parent p) = (None, fs1)"
    by (cases "mkdir True True fs (parent p)") auto
  note c = connect_after_mkdir[OF assms(1) m]
  have "docstore_transaction dumps data (docstore_schema (db_before fs p)) =
      Inr (stored_docstore dumps data (docstore_schema (db_before fs p)))"
    by (rule docstore_transaction_ok[OF assms(2)]) (simp add: docstore_schema_tables)
  with m c show ?thesis
    by (simp add: write_docstore_def ensure_schema)
qed

lemma read_docstore_file:
  assumes "fs p = Some (DbFile db)" "p \<noteq> []"
  shows "read_docstore loads fs p =
     (docstore_rows loads (docstore_schema db), fs(p \<mapsto> DbFile (docstore_schema db)))"
  using assms
  by (simp add: read_docstore_def path_exists_def node_at_def connect_def ensure_schema)

lemma extras_keys: "fst ` set (extras data) = fst ` set data - {''documents'', ''ref_doc_info''}"
  by (auto simp: extras_def image_iff)

lemma extras_distinct: "distinct (map fst data) \<Longrightarrow> distinct (map fst (extras data))"
  by (simp add: extras_def distinct_map_filter)

lemma map_of_extras:
  "map_of (extras data) k =
     (if k \<in> {''documents'', ''ref_doc_info''} then None else map_of data k)"
  unfolding extras_def by (induction data) auto

lemma docstore_rows_stored:
  assumes "snapshot_ok data" "decodes_back dumps loads (payloads data)"
  shows "docstore_rows loads (stored_docstore dumps data db) =
     Inr ([(''documents'', dict_get data ''documents'' (JObj [])),
           (''ref_doc_info'', dict_get data ''ref_doc_info'' (JObj []))] @ extras data)"
proof -
  obtain docs where docs: "dict_get data ''documents'' (JObj []) = JObj docs"
    "distinct (map fst docs)"
    using assms(1) by (auto simp: snapshot_ok_def dict_ok_def split: json.splits)
  obtain refs where refs: "dict_get data ''ref_doc_info'' (JObj []) = JObj refs"
    "distinct (map fst refs)"
    using assms(1) by (auto simp: snapshot_ok_def dict_ok_def split: json.splits)
  have ex: "distinct (map fst (extras data))"
    using assms(1) by (simp add: snapshot_ok_def extras_distinct)
  have c: "\<forall>v \<in> set (map snd docs). loads (dumps v) = Some v"
    "\<forall>v \<in> set (map snd refs). loads (dumps v) = Some v"
    "\<forall>v \<in> set (map snd (extras data)). loads (dumps v) = Some v"
    using assms(2) by (auto simp: decodes_back_def payloads_def docs refs mapping_items_def)
  have l1: "load_rows loads (encode_rows dumps docs) [] = Inr docs"
    using load_rows_encode[OF docs(2) _ c(1), of "[]"] by simp
  have l2: "load_rows loads (encode_rows dumps refs) [] = Inr refs"
    using load_rows_encode[OF refs(2) _ c(2), of "[]"] by simp
  have l3: "load_rows loads (encode_rows dumps (extras data))
      [(''documents'', JObj docs), (''ref_doc_info'', JObj refs)] =
      Inr ([(''documents'', JObj docs), (''ref_doc_info'', JObj refs)] @ extras data)"
    by (rule load_rows_encode[OF ex _ c(3)]) (auto simp: extras_keys)
  show ?thesis
    by (simp add: docstore_rows_def select_all_def bind_res_def stored_docstore_tables
        docs refs mapping_items_def insert_rows_encode ex l1 l2 l3)
qed

lemma map_of_setdefault: "map_of (setdefault d k v) = (map_of d)(k \<mapsto> dict_get d k v)"
proof (cases "k \<in> set (map fst d)")
  case True
  then obtain w where "map_of d k = Some w"
    by (metis map_of_eq_None_iff not_None_eq set_map)
  with True show ?thesis by (auto simp: setdefault_def dict_get_def fun_eq_iff)
next
  case False
  then have "map_of d k = None" by (simp add: map_of_eq_None_iff)
  with False show ?thesis
    by (auto simp: setdefault_def dict_get_def fun_eq_iff map_add_def split: option.splits)
qed

lemma dict_equal_map_of: "map_of a = map_of b \<Longrightarrow> dict_equal a b"
proof -
  assume e: "map_of a = map_of b"
  then have "dom (map_of a) = dom (map_of b)" by simp
  then have "set (map fst a) = set (map fst b)" by (simp add: dom_map_of_conv_image_fst)
  with e show ?thesis by (simp add: dict_equal_def)
qed

lemma dict_get_setdefault_other:
  "k \<noteq> k' \<Longrightarrow> dict_get (setdefault d k v) k' w = dict_get d k' w"
  by (simp add: dict_get_def map_of_setdefault)

lemma readback_equal:
  "dict_equal
     ([(''documents'', dict_get data ''documents'' (JObj [])),
       (''ref_doc_info'', dict_get data ''ref_doc_info'' (JObj []))] @ extras data)
     (setdefault (setdefault data ''documents'' (JObj [])) ''ref_doc_info'' (JObj []))"
  by (rule dict_equal_map_of)
    (auto simp: map_of_setdefault dict_get_setdefault_other map_of_extras fun_eq_iff map_add_def
      split: option.splits)

lemma readback_distinct:
  "distinct (map fst data) \<Longrightarrow>
   distinct (map fst ([(''documents'', v), (''ref_doc_info'', w)] @ extras data))"
  using extras_keys[of data] by (auto simp: extras_distinct)

section \<open>The index store, and a write over an existing file\<close>

lemma indexstore_transaction_eq:
  "db ''index_metadata'' \<noteq> None \<Longrightarrow>
   indexstore_transaction dumps data db = Inr (db(''index_metadata'' \<mapsto> insert_rows dumps [] data))"
  by (auto simp: indexstore_transaction_def delete_from_def bind_res_def executemany_eq)

lemma indexstore_schema_table: "indexstore_schema db ''index_metadata'' \<noteq> None"
  by (simp add: indexstore_schema_def)

lemma write_docstore_existing:
  assumes "is_dir fs (parent p)" "fs p = Some (DbFile db)" "p \<noteq> []" "snapshot_shape data"
  shows "write_docstore dumps fs p data =
     (None, fs(p \<mapsto> DbFile (stored_docstore dumps data (docstore_schema db))))"
proof -
  have m: "mkdir True True fs (parent p) = (None, fs)" using assms(1) by (rule mkdir_idem)
  have c: "connect fs p = Inr db" using assms(2,3) by (simp add: connect_def node_at_def)
  have "docstore_transaction dumps data (docstore_schema db) =
      Inr (stored_docstore dumps data (docstore_schema db))"
    by (rule docstore_transaction_ok[OF assms(4)]) (simp add: docstore_schema_tables)
  with m c show ?thesis by (simp add: write_docstore_def ensure_schema)
qed

lemma write_indexstore_ok:
  assumes "can_persist fs p"
  shows "write_indexstore dumps fs p data =
     (None, (snd (mkdir True True fs (parent p)))
        (p \<mapsto> DbFile ((indexstore_schema (db_before fs p))
                          (''index_metadata'' \<mapsto> insert_rows dumps [] data))))"
proof -
  from assms(1) have "fst (mkdir True True fs (parent p)) = None"
    by (simp add: can_persist_def mkdir_ok)
  then obtain fs1 where m: "mkdir True True fs (parent p) = (None, fs1)"
    by (cases "mkdir True True fs (parent p)") auto
  note c = connect_after_mkdir[OF assms(1) m]
  with m show ?thesis
    by (simp add: write_indexstore_def create_index_table indexstore_transaction_eq
        indexstore_schema_table)
qed

lemma write_indexstore_existing:
  assumes "is_dir fs (parent p)" "fs p = Some (DbFile db)" "p \<noteq> []"
  shows "write_indexstore dumps fs p data =
     (None, fs(p \<mapsto> DbFile ((indexstore_schema db)
                          (''index_metadata'' \<mapsto> insert_rows dumps [] data))))"
proof -
  have m: "mkdir True True fs (parent p) = (None, fs)" using assms(1) by (rule mkdir_idem)
  have c: "connect fs p = Inr db" using assms(2,3) by (simp add: connect_def node_at_def)
  with m show ?thesis
    by (simp add: write_indexstore_def create_index_table indexstore_transaction_eq
        indexstore_schema_table)
qed

lemma read_indexstore_file:
  assumes "fs p = Some (DbFile db)" "p \<noteq> []"
  shows "read_indexstore loads fs p =
     (indexstore_rows loads (indexstore_schema db), fs(p \<mapsto> DbFile (indexstore_schema db)))"
  using assms
  by (simp add: read_indexstore_def path_exists_def node_at_def connect_def create_index_table)

lemma is_dir_upd_other: "q \<noteq> p \<Longrightarrow> is_dir (fs(p \<mapsto> n)) q = is_dir fs q"
  by (simp add: is_dir_def node_at_def)

lemma parent_neq: "p \<noteq> [] \<Longrightarrow> parent p \<noteq> p"
  by (cases p rule: rev_cases) (auto simp: parent_def)

lemma is_dir_after_mkdir:
  assumes "can_persist fs p"
  shows "is_dir ((snd (mkdir True True fs (parent p)))(p \<mapsto> n)) (parent p)"
proof -
  from assms have ne: "p \<noteq> []" by (rule can_persist_nonempty)
  from assms have "fst (mkdir True True fs (parent p)) = None"
    by (simp add: can_persist_def mkdir_ok)
  then have "is_dir (snd (mkdir True True fs (parent p))) (parent p)"
    by (cases "mkdir True True fs (parent p)") (auto dest: mkdir_is_dir)
  moreover have "parent p \<noteq> p" using ne by (rule parent_neq)
  ultimately show ?thesis by (simp add: is_dir_upd_other)
qed

lemma stored_docstore_twice:
  "stored_docstore dumps s2 (stored_docstore dumps s1 db) = stored_docstore dumps s2 db"
  by (auto simp: stored_docstore_def fun_eq_iff)

lemma write_docstore_state:
  assumes "can_persist fs p"
  shows "snd (write_docstore dumps fs p data) =
     (snd (mkdir True True fs (parent p)))
       (p \<mapsto> DbFile (case docstore_transaction dumps data (docstore_schema (db_before fs p)) of
                       Inl e \<Rightarrow> docstore_schema (db_before fs p)
                     | Inr db2 \<Rightarrow> stored_docstore dumps data (docstore_schema (db_before fs p))))"
proof -
  from assms(1) have "fst (mkdir True True fs (parent p)) = None"
    by (simp add: can_persist_def mkdir_ok)
  then obtain fs1 where m: "mkdir True True fs (parent p) = (None, fs1)"
    by (cases "mkdir True True fs (parent p)") auto
  note c = connect_after_mkdir[OF assms(1) m]
  show ?thesis
  proof (cases "docstore_transaction dumps data (docstore_schema (db_before fs p))")
    case (Inl e)
    with m c show ?thesis by (simp add: write_docstore_def ensure_schema)
  next
    case (Inr db2)
    then have "db2 = stored_docstore dumps data (docstore_schema (db_before fs p))"
      by (rule docstore_transaction_Inr)
    with Inr m c show ?thesis by (simp add: write_docstore_def ensure_schema)
  qed
qed

lemma table_rows_upd:
  "table_rows (fs(p \<mapsto> DbFile db)) p t = (case db t of Some rows \<Rightarrow> rows | None \<Rightarrow> [])"
  by (simp add: table_rows_def)

section \<open>The exceptions of a write and of a read\<close>

lemma executemany_error:
  "db t \<noteq> None \<Longrightarrow> executemany dumps t kvs db \<noteq> Inl e"
  by (auto simp: executemany_eq)

lemma clear_and_fill_error:
  "db t \<noteq> None \<Longrightarrow> clear_and_fill dumps t v db = Inl e \<Longrightarrow> e = AttributeError"
  by (cases v)
    (auto simp: clear_and_fill_def delete_from_def bind_res_def executemany_eq
      split: option.splits if_splits)

lemma docstore_transaction_error:
  assumes "\<forall>t \<in> docstore_tables. db t \<noteq> None" "docstore_transaction dumps data db = Inl e"
  shows "e = AttributeError"
proof -
  from assms(1) have t: "db ''documents'' \<noteq> None" "db ''ref_doc_info'' \<noteq> None"
    "db ''metadata'' \<noteq> None"
    by (auto simp: docstore_tables_def)
  from assms(2) t show ?thesis
    unfolding docstore_transaction_def Let_def bind_res_def
    by (auto split: sum.splits dest!: clear_and_fill_Inr dest: clear_and_fill_error[rotated])
qed

lemma mkdir_error:
  "fst (mkdir True True fs p) = Some e \<Longrightarrow> e = FileExistsError \<or> e = NotADirectoryError"
proof (induction p rule: rev_induct)
  case Nil
  then show ?case by (simp add: mkdir_True_Nil)
next
  case (snoc x xs)
  have o: "e' = FileExistsError \<or> e' = FileNotFoundError \<or> e' = NotADirectoryError"
    if "os_mkdir fs' q = Inl e'" for fs' q e'
    using that by (auto simp: os_mkdir_def split: option.splits node.splits)
  have n: "os_mkdir fs' (xs @ [x]) \<noteq> Inl FileNotFoundError" if "is_dir fs' xs" for fs'
    using that by (auto simp: os_mkdir_def is_dir_def parent_def split: option.splits node.splits)
  show ?case
  proof (cases "os_mkdir fs (xs @ [x])")
    case (Inr fs1)
    with snoc.prems show ?thesis by (simp add: mkdir_True_snoc)
  next
    case (Inl e0)
    show ?thesis
    proof (cases "e0 = FileNotFoundError")
      case False
      with Inl snoc.prems o[OF Inl] show ?thesis
        by (auto simp: mkdir_True_snoc split: if_splits)
    next
      case True
      show ?thesis
      proof (cases "mkdir True True fs xs")
        case (Pair r fs1)
        show ?thesis
        proof (cases r)
          case (Some e1)
          with Pair Inl True snoc.prems snoc.IH show ?thesis
            by (simp add: mkdir_True_snoc)
        next
          case None
          with Pair have d: "is_dir fs1 xs" by (auto dest: mkdir_is_dir)
          from Pair None Inl True snoc.prems
          have m: "fst (mkdir False True fs1 (xs @ [x])) = Some e"
            by (simp add: mkdir_True_snoc)
          then obtain e2 where e2: "os_mkdir fs1 (xs @ [x]) = Inl e2" "e2 = e"
            by (auto simp: mkdir_False split: sum.splits if_splits)
          with n[OF d] o[OF e2(1)] show ?thesis by auto
        qed
      qed
    qed
  qed
qed

lemma write_docstore_error:
  assumes "fst (write_docstore dumps fs p data) = Some e"
  shows "e = FileExistsError \<or> e = NotADirectoryError \<or> e = AttributeError \<or>
         e = OperationalError UnableToOpen"
proof (cases "mkdir True True fs (parent p)")
  case (Pair r fs1)
  show ?thesis
  proof (cases r)
    case (Some e1)
    with Pair assms mkdir_error[of fs "parent p" e1] show ?thesis
      by (auto simp: write_docstore_def)
  next
    case None
    show ?thesis
    proof (cases "connect fs1 p")
      case (Inl e1)
      then have "e1 = OperationalError UnableToOpen"
        by (auto simp: connect_def split: option.splits node.splits if_splits)
      with Inl Pair None assms show ?thesis by (simp add: write_docstore_def)
    next
      case (Inr db)
      show ?thesis
      proof (cases "docstore_transaction dumps data (docstore_schema db)")
        case (Inl e1)
        then have "e1 = AttributeError"
          by (rule docstore_transaction_error[rotated]) (simp add: docstore_schema_tables)
        with Inl Inr Pair None assms show ?thesis
          by (simp add: write_docstore_def ensure_schema)
      next
        case (Inr db2)
        with \<open>connect fs1 p = Inr db\<close> Pair None assms show ?thesis
          by (simp add: write_docstore_def ensure_schema)
      qed
    qed
  qed
qed

lemma write_indexstore_error:
  assumes "fst (write_indexstore dumps fs p data) = Some e"
  shows "e = FileExistsError \<or> e = NotADirectoryError \<or> e = OperationalError UnableToOpen"
proof (cases "mkdir True True fs (parent p)")
  case (Pair r fs1)
  show ?thesis
  proof (cases r)
    case (Some e1)
    with Pair assms mkdir_error[of fs "parent p" e1] show ?thesis
      by (auto simp: write_indexstore_def)
  next
    case None
    show ?thesis
    proof (cases "connect fs1 p")
      case (Inl e1)
      then have "e1 = OperationalError UnableToOpen"
        by (auto simp: connect_def split: option.splits node.splits if_splits)
      with Inl Pair None assms show ?thesis by (simp add: write_indexstore_def)
    next
      case (Inr db)
      with Pair None assms show ?thesis
        by (simp add: write_indexstore_def create_index_table indexstore_transaction_eq
            indexstore_schema_table)
    qed
  qed
qed

lemma docstore_rows_error:
  assumes "docstore_rows loads (docstore_schema db) = Inl e"
  shows "e = JSONDecodeError"
proof -
  obtain r1 r2 r3 where r: "docstore_schema db ''documents'' = Some r1"
    "docstore_schema db ''ref_doc_info'' = Some r2" "docstore_schema db ''metadata'' = Some r3"
    using docstore_schema_tables[of _ db] by (fastforce simp: docstore_tables_def)
  from assms show ?thesis
    by (auto simp: docstore_rows_def select_all_def bind_res_def r split: sum.splits
        dest: load_rows_error)
qed

lemma indexstore_rows_error:
  assumes "indexstore_rows loads (indexstore_schema db) = Inl e"
  shows "e = JSONDecodeError"
proof -
  obtain r1 where r: "indexstore_schema db ''index_metadata'' = Some r1"
    using indexstore_schema_table[of db] by auto
  from assms show ?thesis
    by (auto simp: indexstore_rows_def select_all_def bind_res_def r dest: load_rows_error)
qed

lemma read_docstore_cases:
  "fst (read_docstore loads fs p) =
     (case node_at fs p of
        None \<Rightarrow> Inl FileNotFoundError
      | Some Directory \<Rightarrow> Inl (OperationalError UnableToOpen)
      | Some (DbFile db) \<Rightarrow> docstore_rows loads (docstore_schema db))"
  by (auto simp: read_docstore_def path_exists_def connect_def ensure_schema
      split: option.splits node.splits)

lemma read_indexstore_cases:
  "fst (read_indexstore loads fs p) =
     (case node_at fs p of
        None \<Rightarrow> Inl FileNotFoundError
      | Some Directory \<Rightarrow> Inl (OperationalError UnableToOpen)
      | Some (DbFile db) \<Rightarrow> indexstore_rows loads (indexstore_schema db))"
  by (auto simp: read_indexstore_def path_exists_def connect_def create_index_table
      split: option.splits node.splits)

lemma docstore_rows_malformed:
  assumes "t \<in> docstore_tables" "db t = Some rows" "(k, payload) \<in> set rows"
    "loads payload = None"
  shows "docstore_rows loads (docstore_schema db) = Inl JSONDecodeError"
proof -
  obtain r1 r2 r3 where r: "docstore_schema db ''documents'' = Some r1"
    "docstore_schema db ''ref_doc_info'' = Some r2" "docstore_schema db ''metadata'' = Some r3"
    using docstore_schema_tables[of _ db] by (fastforce simp: docstore_tables_def)
  from assms(2) have s: "docstore_schema db t = Some rows" by (simp add: docstore_schema_def)
  have bad: "load_rows loads rows d = Inl JSONDecodeError" for d
    using assms(3,4) by (rule load_rows_malformed)
  have e: "load_rows loads rs d = Inl e' \<Longrightarrow> e' = JSONDecodeError" for rs d e'
    by (rule load_rows_error)
  from assms(1) consider "t = ''documents''" | "t = ''ref_doc_info''" | "t = ''metadata''"
    by (auto simp: docstore_tables_def)
  then show ?thesis
  proof cases
    case 1
    with s r have "r1 = rows" by simp
    then show ?thesis
      by (simp add: docstore_rows_def select_all_def bind_res_def r bad)
  next
    case 2
    with s r have "r2 = rows" by simp
    then show ?thesis
      by (auto simp: docstore_rows_def select_all_def bind_res_def r bad split: sum.splits
          dest: e)
  next
    case 3
    with s r have "r3 = rows" by simp
    then show ?thesis
      by (auto simp: docstore_rows_def select_all_def bind_res_def r bad split: sum.splits
          dest: e)
  qed
qed

lemma table_rows_member:
  "(k, payload) \<in> set (table_rows fs p t) \<Longrightarrow>
   \<exists>db rows. fs p = Some (DbFile db) \<and> db t = Some rows \<and> (k, payload) \<in> set rows"
proof -
  assume a: "(k, payload) \<in> set (table_rows fs p t)"
  then obtain db where f: "fs p = Some (DbFile db)"
    by (cases "fs p") (auto simp: table_rows_def split: node.splits)
  with a obtain rows where "db t = Some rows" "(k, payload) \<in> set rows"
    by (cases "db t") (auto simp: table_rows_def)
  with f show ?thesis by blast
qed

section \<open>The file after a write that failed or succeeded\<close>

lemma mkdir_frame_pair:
  "mkdir True True fs (parent p) = (r, fs1) \<Longrightarrow> p \<noteq> [] \<Longrightarrow> fs1 p = fs p"
  using mkdir_frame[of "parent p" p fs] by (simp add: parent_def)

lemma node_at_nonempty: "p \<noteq> [] \<Longrightarrow> node_at fs p = fs p"
  by (simp add: node_at_def)

lemma connect_Inr:
  "connect fs p = Inr db \<Longrightarrow> p \<noteq> [] \<and> fs p \<noteq> Some Directory \<and> db = db_before fs p"
  by (auto simp: connect_def node_at_def db_before_def split: option.splits node.splits if_splits)

lemma write_docstore_failed:
  assumes "write_docstore dumps fs p data = (Some e, fs')"
  shows "fs' p = fs p \<or>
     (p \<noteq> [] \<and> fs p \<noteq> Some Directory \<and>
      fs' p = Some (DbFile (docstore_schema (db_before fs p))))"
proof (cases "p = []")
  case True
  then have "mkdir True True fs (parent p) = (None, fs)"
    by (simp add: parent_def mkdir_True_Nil)
  moreover from True have "connect fs p = Inl (OperationalError UnableToOpen)"
    by (simp add: connect_def node_at_def)
  ultimately show ?thesis using assms by (simp add: write_docstore_def)
next
  case False
  obtain r fs1 where m: "mkdir True True fs (parent p) = (r, fs1)"
    by (cases "mkdir True True fs (parent p)")
  from m False have f: "fs1 p = fs p" by (rule mkdir_frame_pair)
  show ?thesis
  proof (cases r)
    case (Some e1)
    with m assms f show ?thesis by (simp add: write_docstore_def)
  next
    case None
    show ?thesis
    proof (cases "connect fs1 p")
      case (Inl e1)
      with m None assms f show ?thesis by (simp add: write_docstore_def)
    next
      case (Inr db)
      from connect_Inr[OF Inr] f have d: "fs p \<noteq> Some Directory" "db = db_before fs p"
        by (simp_all add: db_before_def)
      from Inr m None assms have "fs' = fs1(p \<mapsto> DbFile (docstore_schema db))"
        by (auto simp: write_docstore_def ensure_schema split: sum.splits)
      with d False show ?thesis by simp
    qed
  qed
qed

lemma write_docstore_succeeded:
  assumes "write_docstore dumps fs p data = (None, fs')"
  shows "fs' p = Some (DbFile (stored_docstore dumps data (docstore_schema (db_before fs p))))"
proof -
  obtain r fs1 where m: "mkdir True True fs (parent p) = (r, fs1)"
    by (cases "mkdir True True fs (parent p)")
  with assms have r: "r = None" by (cases r) (simp_all add: write_docstore_def)
  with m assms obtain db where c: "connect fs1 p = Inr db"
    by (cases "connect fs1 p") (simp_all add: write_docstore_def)
  from connect_Inr[OF c] have ne: "p \<noteq> []" by simp
  from m ne have f: "fs1 p = fs p" by (rule mkdir_frame_pair)
  from connect_Inr[OF c] f have d: "db = db_before fs p" by (simp add: db_before_def)
  from m r c assms obtain db2 where t: "docstore_transaction dumps data (docstore_schema db) = Inr db2"
    and fs': "fs' = fs1(p \<mapsto> DbFile db2)"
    by (auto simp: write_docstore_def ensure_schema split: sum.splits)
  from t have "db2 = stored_docstore dumps data (docstore_schema db)"
    by (rule docstore_transaction_Inr)
  with fs' d show ?thesis by simp
qed

lemma write_indexstore_failed:
  assumes "write_indexstore dumps fs p data = (Some e, fs')"
  shows "fs' p = fs p \<and> node_at fs' p = node_at fs p"
proof (cases "p = []")
  case True
  then have "mkdir True True fs (parent p) = (None, fs)"
    by (simp add: parent_def mkdir_True_Nil)
  moreover from True have "connect fs p = Inl (OperationalError UnableToOpen)"
    by (simp add: connect_def node_at_def)
  ultimately show ?thesis using assms by (simp add: write_indexstore_def)
next
  case False
  obtain r fs1 where m: "mkdir True True fs (parent p) = (r, fs1)"
    by (cases "mkdir True True fs (parent p)")
  from m False have f: "fs1 p = fs p" by (rule mkdir_frame_pair)
  show ?thesis
  proof (cases r)
    case (Some e1)
    with m assms f False show ?thesis by (simp add: write_indexstore_def node_at_def)
  next
    case None
    show ?thesis
    proof (cases "connect fs1 p")
      case (Inl e1)
      with m None assms f False show ?thesis by (simp add: write_indexstore_def node_at_def)
    next
      case (Inr db)
      with m None assms show ?thesis
        by (simp add: write_indexstore_def create_index_table indexstore_transaction_eq
            indexstore_schema_table)
    qed
  qed
qed

lemma write_indexstore_succeeded:
  assumes "write_indexstore dumps fs p data = (None, fs')"
  shows "fs' p = Some (DbFile ((indexstore_schema (db_before fs p))
                                 (''index_metadata'' \<mapsto> insert_rows dumps [] data)))"
proof -
  obtain r fs1 where m: "mkdir True True fs (parent p) = (r, fs1)"
    by (cases "mkdir True True fs (parent p)")
  with assms have r: "r = None" by (cases r) (simp_all add: write_indexstore_def)
  with m assms obtain db where c: "connect fs1 p = Inr db"
    by (cases "connect fs1 p") (simp_all add: write_indexstore_def)
  from connect_Inr[OF c] have ne: "p \<noteq> []" by simp
  from m ne have f: "fs1 p = fs p" by (rule mkdir_frame_pair)
  from connect_Inr[OF c] f have d: "db = db_before fs p" by (simp add: db_before_def)
  from m r c assms d show ?thesis
    by (auto simp: write_indexstore_def create_index_table indexstore_transaction_eq
        indexstore_schema_table)
qed

lemma table_rows_schema:
  "fs p \<noteq> Some Directory \<Longrightarrow>
   (case docstore_schema (db_before fs p) t of Some rows \<Rightarrow> rows | None \<Rightarrow> []) =
     table_rows fs p t"
  by (auto simp: table_rows_def docstore_schema_def db_before_def
      split: option.splits node.splits)

lemma docstore_rows_empty: "docstore_rows loads (docstore_schema Map.empty) = Inr empty_snapshot"
  by (simp add: docstore_rows_def select_all_def bind_res_def docstore_schema_def
      docstore_tables_def empty_snapshot_def)

lemma read_docstore_after_failed:
  assumes "write_docstore dumps fs p data = (Some e, fs')"
  shows "fst (read_docstore loads fs' p) =
     (if path_exists fs p then fst (read_docstore loads fs p)
      else if path_exists fs' p then Inr empty_snapshot else Inl FileNotFoundError)"
proof -
  from write_docstore_failed[OF assms] consider
    (same) "fs' p = fs p" |
    (schema) "p \<noteq> []" "fs p \<noteq> Some Directory"
      "fs' p = Some (DbFile (docstore_schema (db_before fs p)))"
    by blast
  then show ?thesis
  proof cases
    case same
    then have "node_at fs' p = node_at fs p" by (simp add: node_at_def)
    then show ?thesis
      by (auto simp: read_docstore_cases path_exists_def split: option.splits)
  next
    case schema
    show ?thesis
    proof (cases "fs p")
      case None
      with schema show ?thesis
        by (simp add: read_docstore_cases path_exists_def node_at_def db_before_def
            docstore_schema_idem docstore_rows_empty)
    next
      case (Some n)
      with schema obtain db where "fs p = Some (DbFile db)" by (cases n) auto
      with schema show ?thesis
        by (simp add: read_docstore_cases path_exists_def node_at_def db_before_def
            docstore_schema_idem)
    qed
  qed
qed

section \<open>Repeated calls against one path\<close>

lemma read_docstore_snd:
  "snd (read_docstore loads fs p) =
     (case node_at fs p of
        Some (DbFile db) \<Rightarrow> fs(p \<mapsto> DbFile (docstore_schema db))
      | _ \<Rightarrow> fs)"
  by (auto simp: read_docstore_def path_exists_def connect_def ensure_schema
      split: option.splits node.splits)

lemma read_indexstore_snd:
  "snd (read_indexstore loads fs p) =
     (case node_at fs p of
        Some (DbFile db) \<Rightarrow> fs(p \<mapsto> DbFile (indexstore_schema db))
      | _ \<Rightarrow> fs)"
  by (auto simp: read_indexstore_def path_exists_def connect_def create_index_table
      split: option.splits node.splits)

lemma read_docstore_keeps_rows:
  "table_rows (snd (read_docstore loads fs p)) p t = table_rows fs p t"
  by (auto simp: read_docstore_snd table_rows_def node_at_def docstore_schema_def
      split: option.splits node.splits if_splits)

lemma read_indexstore_keeps_rows:
  "table_rows (snd (read_indexstore loads fs p)) p t = table_rows fs p t"
  by (auto simp: read_indexstore_snd table_rows_def node_at_def indexstore_schema_def
      split: option.splits node.splits if_splits)

lemma read_docstore_error:
  "fst (read_docstore loads fs p) = Inl e \<Longrightarrow>
   e = FileNotFoundError \<or> e = OperationalError UnableToOpen \<or> e = JSONDecodeError"
  by (auto simp: read_docstore_cases split: option.splits node.splits dest: docstore_rows_error)

lemma read_indexstore_error:
  "fst (read_indexstore loads fs p) = Inl e \<Longrightarrow>
   e = FileNotFoundError \<or> e = OperationalError UnableToOpen \<or> e = JSONDecodeError"
  by (auto simp: read_indexstore_cases split: option.splits node.splits
      dest: indexstore_rows_error)

lemma run_docstore_no_table_exists:
  "Some (OperationalError (TableExists t)) \<notin> set (fst (run_docstore dumps loads p ops fs))"
proof (induction ops arbitrary: fs)
  case Nil
  then show ?case by simp
next
  case (Cons op ops)
  show ?case
  proof (cases op)
    case (Persist data)
    obtain r fs1 where w: "write_docstore dumps fs p data = (r, fs1)"
      by (cases "write_docstore dumps fs p data")
    have "r \<noteq> Some (OperationalError (TableExists t))"
      using write_docstore_error[of dumps fs p data "OperationalError (TableExists t)"] w
      by auto
    with Cons.IH[of fs1] w Persist show ?thesis
      by (auto split: prod.splits)
  next
    case Hydrate
    obtain r fs1 where w: "read_docstore loads fs p = (r, fs1)"
      by (cases "read_docstore loads fs p")
    have "r \<noteq> Inl (OperationalError (TableExists t))"
      using read_docstore_error[of loads fs p "OperationalError (TableExists t)"] w
      by auto
    with Cons.IH[of fs1] w Hydrate show ?thesis
      by (auto split: prod.splits sum.splits)
  qed
qed

lemma run_indexstore_no_table_exists:
  "Some (OperationalError (TableExists t)) \<notin> set (fst (run_indexstore dumps loads p ops fs))"
proof (induction ops arbitrary: fs)
  case Nil
  then show ?case by simp
next
  case (Cons op ops)
  show ?case
  proof (cases op)
    case (Persist data)
    obtain r fs1 where w: "write_indexstore dumps fs p data = (r, fs1)"
      by (cases "write_indexstore dumps fs p data")
    have "r \<noteq> Some (OperationalError (TableExists t))"
      using write_indexstore_error[of dumps fs p data "OperationalError (TableExists t)"] w
      by auto
    with Cons.IH[of fs1] w Persist show ?thesis
      by (auto split: prod.splits)
  next
    case Hydrate
    obtain r fs1 where w: "read_indexstore loads fs p = (r, fs1)"
      by (cases "read_indexstore loads fs p")
    have "r \<noteq> Inl (OperationalError (TableExists t))"
      using read_indexstore_error[of loads fs p "OperationalError (TableExists t)"] w
      by auto
    with Cons.IH[of fs1] w Hydrate show ?thesis
      by (auto split: prod.splits sum.splits)
  qed
qed

lemma is_file_upd: "p \<noteq> [] \<Longrightarrow> is_file (fs(p \<mapsto> DbFile db)) p"
  by (simp add: is_file_def node_at_def)

lemma is_file_obtain: "is_file fs p \<Longrightarrow> p \<noteq> [] \<Longrightarrow> \<exists>db. fs p = Some (DbFile db)"
  by (auto simp: is_file_def node_at_def split: option.splits node.splits)

lemma ancestors_ok_upd:
  assumes "ancestors_ok fs (parent p)" "p \<noteq> []"
  shows "ancestors_ok (fs(p \<mapsto> n)) (parent p)"
  unfolding ancestors_ok_def
proof (intro ballI)
  fix k assume k: "k \<in> set [0..<Suc (length (parent p))]"
  have "length (take k (parent p)) < length p"
    using assms(2) by (simp add: parent_def min_def) arith
  then have "take k (parent p) \<noteq> p" by (metis less_irrefl)
  then have "is_file (fs(p \<mapsto> n)) (take k (parent p)) = is_file fs (take k (parent p))"
    by (simp add: is_file_def node_at_def)
  moreover from assms(1) k have "\<not> is_file fs (take k (parent p))"
    unfolding ancestors_ok_def by (rule bspec)
  ultimately show "\<not> is_file (fs(p \<mapsto> n)) (take k (parent p))"
    by blast
qed

lemma persistable_after_persist:
  assumes "persistable fs p" "snapshot_shape data"
  shows "fst (write_docstore dumps fs p data) = None \<and>
         persistable (snd (write_docstore dumps fs p data)) p"
  using assms(1) unfolding persistable_def
proof (elim disjE conjE)
  assume cp: "can_persist fs p"
  then have ne: "p \<noteq> []" by (rule can_persist_nonempty)
  show "fst (write_docstore dumps fs p data) = None \<and>
     (can_persist (snd (write_docstore dumps fs p data)) p \<or>
      p \<noteq> [] \<and> is_dir (snd (write_docstore dumps fs p data)) (parent p) \<and>
      is_file (snd (write_docstore dumps fs p data)) p)"
    using write_docstore_ok[OF cp assms(2), of dumps] is_dir_after_mkdir[OF cp] ne
    by (simp add: is_file_upd)
next
  assume ne: "p \<noteq> []" and d: "is_dir fs (parent p)" and f: "is_file fs p"
  from is_file_obtain[OF f ne] obtain db where db: "fs p = Some (DbFile db)" by blast
  show "fst (write_docstore dumps fs p data) = None \<and>
     (can_persist (snd (write_docstore dumps fs p data)) p \<or>
      p \<noteq> [] \<and> is_dir (snd (write_docstore dumps fs p data)) (parent p) \<and>
      is_file (snd (write_docstore dumps fs p data)) p)"
    using write_docstore_existing[OF d db ne assms(2), of dumps] ne d
    by (simp add: is_file_upd is_dir_upd_other parent_neq)
qed

lemma persistable_after_index_persist:
  assumes "persistable fs p"
  shows "fst (write_indexstore dumps fs p data) = None \<and>
         persistable (snd (write_indexstore dumps fs p data)) p"
  using assms(1) unfolding persistable_def
proof (elim disjE conjE)
  assume cp: "can_persist fs p"
  then have ne: "p \<noteq> []" by (rule can_persist_nonempty)
  show "fst (write_indexstore dumps fs p data) = None \<and>
     (can_persist (snd (write_indexstore dumps fs p data)) p \<or>
      p \<noteq> [] \<and> is_dir (snd (write_indexstore dumps fs p data)) (parent p) \<and>
      is_file (snd (write_indexstore dumps fs p data)) p)"
    using write_indexstore_ok[OF cp, of dumps data] is_dir_after_mkdir[OF cp] ne
    by (simp add: is_file_upd)
next
  assume ne: "p \<noteq> []" and d: "is_dir fs (parent p)" and f: "is_file fs p"
  from is_file_obtain[OF f ne] obtain db where db: "fs p = Some (DbFile db)" by blast
  show "fst (write_indexstore dumps fs p data) = None \<and>
     (can_persist (snd (write_indexstore dumps fs p data)) p \<or>
      p \<noteq> [] \<and> is_dir (snd (write_indexstore dumps fs p data)) (parent p) \<and>
      is_file (snd (write_indexstore dumps fs p data)) p)"
    using write_indexstore_existing[OF d db ne, of dumps data] ne d
    by (simp add: is_file_upd is_dir_upd_other parent_neq)
qed

lemma persistable_upd:
  assumes "persistable fs p" "p \<noteq> []"
  shows "persistable (fs(p \<mapsto> DbFile db)) p"
  using assms(1) unfolding persistable_def
proof (elim disjE conjE)
  assume cp: "can_persist fs p"
  then have "ancestors_ok (fs(p \<mapsto> DbFile db)) (parent p)"
    using assms(2) by (auto simp: can_persist_def intro: ancestors_ok_upd)
  moreover have "\<not> is_dir (fs(p \<mapsto> DbFile db)) p"
    using assms(2) by (simp add: is_dir_def node_at_def)
  ultimately show "can_persist (fs(p \<mapsto> DbFile db)) p \<or>
      p \<noteq> [] \<and> is_dir (fs(p \<mapsto> DbFile db)) (parent p) \<and> is_file (fs(p \<mapsto> DbFile db)) p"
    by (simp add: can_persist_def)
next
  assume "p \<noteq> []" "is_dir fs (parent p)" "is_file fs p"
  then show "can_persist (fs(p \<mapsto> DbFile db)) p \<or>
      p \<noteq> [] \<and> is_dir (fs(p \<mapsto> DbFile db)) (parent p) \<and> is_file (fs(p \<mapsto> DbFile db)) p"
    by (simp add: is_file_upd is_dir_upd_other parent_neq)
qed

lemma persistable_nonempty: "persistable fs p \<Longrightarrow> p \<noteq> []"
  by (auto simp: persistable_def dest: can_persist_nonempty)

lemma persistable_after_hydrate:
  "persistable fs p \<Longrightarrow> persistable (snd (read_docstore loads fs p)) p"
  by (auto simp: read_docstore_snd split: option.splits node.splits
      intro: persistable_upd dest: persistable_nonempty)

lemma persistable_after_index_hydrate:
  "persistable fs p \<Longrightarrow> persistable (snd (read_indexstore loads fs p)) p"
  by (auto simp: read_indexstore_snd split: option.splits node.splits
      intro: persistable_upd dest: persistable_nonempty)

lemma run_docstore_persists:
  "persistable fs p \<Longrightarrow> snapshots_only ops \<Longrightarrow>
   persists_succeed ops (fst (run_docstore dumps loads p ops fs))"
proof (induction ops arbitrary: fs)
  case Nil
  then show ?case by simp
next
  case (Cons op ops)
  show ?case
  proof (cases op)
    case (Persist data)
    with Cons.prems have sh: "snapshot_shape data" "snapshots_only ops" by simp_all
    note a = persistable_after_persist[OF Cons.prems(1) sh(1), of dumps]
    obtain r fs1 where w: "write_docstore dumps fs p data = (r, fs1)"
      by (cases "write_docstore dumps fs p data")
    with a have "r = None" "persistable fs1 p" by simp_all
    with Cons.IH[of fs1] sh(2) w Persist show ?thesis
      by (auto split: prod.splits)
  next
    case Hydrate
    with Cons.prems have sh: "snapshots_only ops" by simp
    note a = persistable_after_hydrate[OF Cons.prems(1), of loads]
    obtain r fs1 where w: "read_docstore loads fs p = (r, fs1)"
      by (cases "read_docstore loads fs p")
    with a have "persistable fs1 p" by simp
    with Cons.IH[of fs1] sh w Hydrate show ?thesis
      by (auto split: prod.splits)
  qed
qed

lemma run_indexstore_persists:
  "persistable fs p \<Longrightarrow> persists_succeed ops (fst (run_indexstore dumps loads p ops fs))"
proof (induction ops arbitrary: fs)
  case Nil
  then show ?case by simp
next
  case (Cons op ops)
  show ?case
  proof (cases op)
    case (Persist data)
    note a = persistable_after_index_persist[OF Cons.prems(1), of dumps data]
    obtain r fs1 where w: "write_indexstore dumps fs p data = (r, fs1)"
      by (cases "write_indexstore dumps fs p data")
    with a have "r = None" "persistable fs1 p" by simp_all
    with Cons.IH[of fs1] w Persist show ?thesis
      by (auto split: prod.splits)
  next
    case Hydrate
    note a = persistable_after_index_hydrate[OF Cons.prems(1), of loads]
    obtain r fs1 where w: "read_indexstore loads fs p = (r, fs1)"
      by (cases "read_indexstore loads fs p")
    with a have "persistable fs1 p" by simp
    with Cons.IH[of fs1] w Hydrate show ?thesis
      by (auto split: prod.splits)
  qed
qed

lemma docstore_schema_le: "db \<subseteq>\<^sub>m docstore_schema db"
  by (auto simp: map_le_def docstore_schema_def)

lemma indexstore_schema_le: "db \<subseteq>\<^sub>m indexstore_schema db"
  by (auto simp: map_le_def indexstore_schema_def)

section \<open>The claims\<close>

text \<open>
  Claim C1 (round trip of the document store). Let \<open>data\<close> be a snapshot: a dict whose
  \<^verbatim>\<open>documents\<close> and \<^verbatim>\<open>ref_doc_info\<close>, where present, are dicts, and whose payloads the codec
  decodes got from their encoding. Where the database file can be created, writing
  \<open>data\<close> succeeds, reading the path got succeeds, and the mapping read is equal, as a
  dict, to \<open>data\<close> with an absent \<^verbatim>\<open>documents\<close> or \<^verbatim>\<open>ref_doc_info\<close> read as the empty mapping.
\<close>

theorem docstore_roundtrip:
  assumes "can_persist fs p" "snapshot_ok data"
    and "decodes_back dumps loads (payloads data)"
  shows "\<exists>fs1 fs2 got.
     write_docstore dumps fs p data = (None, fs1) \<and>
     read_docstore loads fs1 p = (Inr got, fs2) \<and>
     distinct (map fst got) \<and>
     dict_equal got
       (setdefault (setdefault data ''documents'' (JObj [])) ''ref_doc_info'' (JObj []))"
proof -
  from assms(2) have sh: "snapshot_shape data"
    by (auto simp: snapshot_ok_def snapshot_shape_def dict_ok_def is_mapping_def
        split: json.splits)
  from assms(1) have ne: "p \<noteq> []" by (rule can_persist_nonempty)
  let ?db = "stored_docstore dumps data (docstore_schema (db_before fs p))"
  let ?fs1 = "(snd (mkdir True True fs (parent p)))(p \<mapsto> DbFile ?db)"
  let ?got = "[(''documents'', dict_get data ''documents'' (JObj [])),
       (''ref_doc_info'', dict_get data ''ref_doc_info'' (JObj []))] @ extras data"
  have w: "write_docstore dumps fs p data = (None, ?fs1)"
    by (rule write_docstore_ok[OF assms(1) sh])
  have r: "read_docstore loads ?fs1 p = (Inr ?got, ?fs1(p \<mapsto> DbFile ?db))"
    using read_docstore_file[of ?fs1 p ?db loads] ne
    by (simp add: docstore_schema_stored docstore_rows_stored[OF assms(2,3)])
  have d: "distinct (map fst ?got)"
    using assms(2) by (intro readback_distinct) (simp add: snapshot_ok_def)
  from w r d readback_equal[of data] show ?thesis by blast
qed

text \<open>
  Scenario A and the snapshot of the in-memory store, on a file system with nothing in it.
\<close>

theorem docstore_roundtrip_witness:
  "can_persist empty_fs store_path \<and> snapshot_ok scenario_A \<and> snapshot_ok kvstore_snapshot \<and>
   decodes_back json_dumps json_loads (payloads scenario_A) \<and>
   decodes_back json_dumps json_loads (payloads kvstore_snapshot) \<and>
   (\<exists>fs1 fs2 got.
      write_docstore json_dumps empty_fs store_path scenario_A = (None, fs1) \<and>
      read_docstore json_loads fs1 store_path = (Inr got, fs2) \<and>
      distinct (map fst got) \<and>
      dict_equal got
        (setdefault (setdefault scenario_A ''documents'' (JObj [])) ''ref_doc_info'' (JObj []))) \<and>
   (\<exists>fs1 fs2 got.
      write_docstore json_dumps empty_fs store_path kvstore_snapshot = (None, fs1) \<and>
      read_docstore json_loads fs1 store_path = (Inr got, fs2) \<and>
      distinct (map fst got) \<and>
      dict_equal got
        (setdefault (setdefault kvstore_snapshot ''documents'' (JObj [])) ''ref_doc_info''
           (JObj [])))"
proof -
  have h1: "can_persist empty_fs store_path" by code_simp
  have h2: "snapshot_ok scenario_A" by code_simp
  have h3: "decodes_back json_dumps json_loads (payloads scenario_A)" by code_simp
  have h4: "snapshot_ok kvstore_snapshot" by code_simp
  have h5: "decodes_back json_dumps json_loads (payloads kvstore_snapshot)" by code_simp
  from h1 h2 h3 h4 h5 docstore_roundtrip[OF h1 h2 h3] docstore_roundtrip[OF h1 h4 h5]
  show ?thesis by blast
qed

text \<open>
  Claim C2 (overwrite, not union). Where the database file can be created and \<open>s2\<close> is a
  snapshot, persisting \<open>s1\<close> and then \<open>s2\<close> to the same path gives the outcome and the file
  system of persisting \<open>s2\<close> alone, whatever \<open>s1\<close> was, so a read returns the same in
  both; each table holds the rows inserted from \<open>s2\<close> and nothing of \<open>s1\<close>. The same
  holds of the index store, for any two mappings.
\<close>

theorem overwrite_not_union:
  assumes "can_persist fs p" "snapshot_shape s2"
  shows
    "fst (write_docstore dumps fs p s2) = None \<and>
     write_docstore dumps (snd (write_docstore dumps fs p s1)) p s2 =
       write_docstore dumps fs p s2 \<and>
     read_docstore loads (snd (write_docstore dumps (snd (write_docstore dumps fs p s1)) p s2)) p =
       read_docstore loads (snd (write_docstore dumps fs p s2)) p \<and>
     table_rows (snd (write_docstore dumps (snd (write_docstore dumps fs p s1)) p s2)) p
         ''documents'' =
       insert_rows dumps [] (mapping_items (dict_get s2 ''documents'' (JObj []))) \<and>
     table_rows (snd (write_docstore dumps (snd (write_docstore dumps fs p s1)) p s2)) p
         ''ref_doc_info'' =
       insert_rows dumps [] (mapping_items (dict_get s2 ''ref_doc_info'' (JObj []))) \<and>
     table_rows (snd (write_docstore dumps (snd (write_docstore dumps fs p s1)) p s2)) p
         ''metadata'' =
       insert_rows dumps [] (extras s2) \<and>
     fst (write_indexstore dumps fs p i2) = None \<and>
     write_indexstore dumps (snd (write_indexstore dumps fs p i1)) p i2 =
       write_indexstore dumps fs p i2 \<and>
     read_indexstore loads (snd (write_indexstore dumps (snd (write_indexstore dumps fs p i1)) p i2)) p =
       read_indexstore loads (snd (write_indexstore dumps fs p i2)) p \<and>
     table_rows (snd (write_indexstore dumps (snd (write_indexstore dumps fs p i1)) p i2)) p
         ''index_metadata'' =
       insert_rows dumps [] i2"
proof -
  from assms(1) have ne: "p \<noteq> []" by (rule can_persist_nonempty)
  let ?fsm = "snd (mkdir True True fs (parent p))"
  let ?db0 = "docstore_schema (db_before fs p)"
  let ?x = "case docstore_transaction dumps s1 ?db0 of
      Inl e \<Rightarrow> ?db0 | Inr db2 \<Rightarrow> stored_docstore dumps s1 ?db0"
  have s1: "snd (write_docstore dumps fs p s1) = ?fsm(p \<mapsto> DbFile ?x)"
    by (rule write_docstore_state[OF assms(1)])
  have d: "is_dir (?fsm(p \<mapsto> DbFile ?x)) (parent p)"
    by (rule is_dir_after_mkdir[OF assms(1)])
  have x: "stored_docstore dumps s2 (docstore_schema ?x) = stored_docstore dumps s2 ?db0"
    by (cases "docstore_transaction dumps s1 ?db0")
      (simp_all add: docstore_schema_idem docstore_schema_stored stored_docstore_twice)
  have w2: "write_docstore dumps fs p s2 = (None, ?fsm(p \<mapsto> DbFile (stored_docstore dumps s2 ?db0)))"
    by (rule write_docstore_ok[OF assms])
  have w12: "write_docstore dumps (snd (write_docstore dumps fs p s1)) p s2 =
      (None, ?fsm(p \<mapsto> DbFile (stored_docstore dumps s2 ?db0)))"
    using write_docstore_existing[OF d _ ne assms(2), of ?x dumps] by (simp add: s1 x)
  let ?i0 = "indexstore_schema (db_before fs p)"
  let ?y = "?i0(''index_metadata'' \<mapsto> insert_rows dumps [] i1)"
  have i1: "write_indexstore dumps fs p i1 = (None, ?fsm(p \<mapsto> DbFile ?y))"
    by (rule write_indexstore_ok[OF assms(1)])
  have i2: "write_indexstore dumps fs p i2 =
      (None, ?fsm(p \<mapsto> DbFile (?i0(''index_metadata'' \<mapsto> insert_rows dumps [] i2))))"
    by (rule write_indexstore_ok[OF assms(1)])
  have di: "is_dir (?fsm(p \<mapsto> DbFile ?y)) (parent p)"
    by (rule is_dir_after_mkdir[OF assms(1)])
  have y: "(indexstore_schema ?y)(''index_metadata'' \<mapsto> rows) = ?i0(''index_metadata'' \<mapsto> rows)"
    for rows
    by (auto simp: indexstore_schema_def fun_eq_iff)
  have i12: "write_indexstore dumps (snd (write_indexstore dumps fs p i1)) p i2 =
      (None, ?fsm(p \<mapsto> DbFile (?i0(''index_metadata'' \<mapsto> insert_rows dumps [] i2))))"
    using write_indexstore_existing[OF di _ ne, of ?y dumps i2] by (simp add: i1 y)
  show ?thesis
    by (simp add: w2 w12 i2 i12 table_rows_upd stored_docstore_tables)
qed

theorem overwrite_not_union_witness:
  "can_persist empty_fs store_path \<and> snapshot_shape scenario_B \<and>
   fst (write_docstore json_dumps empty_fs store_path scenario_B) = None \<and>
   write_docstore json_dumps (snd (write_docstore json_dumps empty_fs store_path scenario_A))
       store_path scenario_B =
     write_docstore json_dumps empty_fs store_path scenario_B \<and>
   table_rows
       (snd (write_docstore json_dumps
          (snd (write_docstore json_dumps empty_fs store_path scenario_A)) store_path scenario_B))
       store_path ''documents'' = [] \<and>
   fst (read_docstore json_loads
       (snd (write_docstore json_dumps
          (snd (write_docstore json_dumps empty_fs store_path scenario_A)) store_path scenario_B))
       store_path) =
     Inr [(''documents'', JObj []), (''ref_doc_info'', JObj []), (''class_name'', JStr ''X'')] \<and>
   write_indexstore json_dumps (snd (write_indexstore json_dumps empty_fs store_path scenario_C))
       store_path [] =
     write_indexstore json_dumps empty_fs store_path []"
proof -
  have h1: "can_persist empty_fs store_path" by code_simp
  have h2: "snapshot_shape scenario_B" by code_simp
  have e: "insert_rows json_dumps [] (mapping_items (dict_get scenario_B ''documents'' (JObj []))) = []"
    by code_simp
  have r: "fst (read_docstore json_loads
       (snd (write_docstore json_dumps
          (snd (write_docstore json_dumps empty_fs store_path scenario_A)) store_path scenario_B))
       store_path) =
     Inr [(''documents'', JObj []), (''ref_doc_info'', JObj []), (''class_name'', JStr ''X'')]"
    by code_simp
  note t = overwrite_not_union[OF h1 h2, of json_dumps scenario_A json_loads "[]" scenario_C]
  from t have c1: "fst (write_docstore json_dumps empty_fs store_path scenario_B) = None"
    by blast
  from t have c2: "write_docstore json_dumps
      (snd (write_docstore json_dumps empty_fs store_path scenario_A)) store_path scenario_B =
     write_docstore json_dumps empty_fs store_path scenario_B"
    by blast
  from t have "table_rows
       (snd (write_docstore json_dumps
          (snd (write_docstore json_dumps empty_fs store_path scenario_A)) store_path scenario_B))
       store_path ''documents'' =
      insert_rows json_dumps [] (mapping_items (dict_get scenario_B ''documents'' (JObj [])))"
    by blast
  then have c3: "table_rows
       (snd (write_docstore json_dumps
          (snd (write_docstore json_dumps empty_fs store_path scenario_A)) store_path scenario_B))
       store_path ''documents'' = []"
    using e by (rule trans)
  from t have c4: "write_indexstore json_dumps
      (snd (write_indexstore json_dumps empty_fs store_path scenario_C)) store_path [] =
     write_indexstore json_dumps empty_fs store_path []"
    by blast
  from h1 h2 c1 c2 c3 r c4 show ?thesis by blast
qed

text \<open>
  Claim C5 (empty is valid). Where the database file can be created, persisting the empty
  snapshot succeeds and reading it back returns the empty snapshot, not an error; a file
  with no table at all reads as the empty snapshot too, while no file at the path is
  FileNotFoundError.
\<close>

theorem empty_is_valid:
  assumes "can_persist fs p"
  shows
    "(\<exists>fs1 fs2.
        write_docstore dumps fs p empty_snapshot = (None, fs1) \<and>
        read_docstore loads fs1 p = (Inr empty_snapshot, fs2)) \<and>
     fst (read_docstore loads (fs(p \<mapsto> DbFile Map.empty)) p) = Inr empty_snapshot \<and>
     fst (read_docstore loads (fs(p := None)) p) = Inl FileNotFoundError"
proof -
  from assms(1) have ne: "p \<noteq> []" by (rule can_persist_nonempty)
  have sh: "snapshot_shape empty_snapshot"
    by (simp add: snapshot_shape_def empty_snapshot_def dict_get_def is_mapping_def)
  let ?db = "stored_docstore dumps empty_snapshot (docstore_schema (db_before fs p))"
  let ?fs1 = "(snd (mkdir True True fs (parent p)))(p \<mapsto> DbFile ?db)"
  have w: "write_docstore dumps fs p empty_snapshot = (None, ?fs1)"
    by (rule write_docstore_ok[OF assms(1) sh])
  have rows: "docstore_rows loads ?db = Inr empty_snapshot"
    by (simp add: docstore_rows_def select_all_def bind_res_def stored_docstore_tables
        empty_snapshot_def dict_get_def mapping_items_def extras_def)
  have r: "read_docstore loads ?fs1 p = (Inr empty_snapshot, ?fs1(p \<mapsto> DbFile ?db))"
    using read_docstore_file[of ?fs1 p ?db loads] ne
    by (simp add: docstore_schema_stored rows)
  have rows0: "docstore_rows loads (docstore_schema Map.empty) = Inr empty_snapshot"
    by (simp add: docstore_rows_def select_all_def bind_res_def docstore_schema_def
        docstore_tables_def empty_snapshot_def)
  have r0: "fst (read_docstore loads (fs(p \<mapsto> DbFile Map.empty)) p) = Inr empty_snapshot"
    using read_docstore_file[of "fs(p \<mapsto> DbFile Map.empty)" p Map.empty loads] ne
    by (simp add: rows0)
  have r1: "fst (read_docstore loads (fs(p := None)) p) = Inl FileNotFoundError"
    using ne by (simp add: read_docstore_def path_exists_def node_at_def)
  from w r r0 r1 show ?thesis by blast
qed

theorem empty_is_valid_witness:
  "can_persist empty_fs store_path \<and>
   (\<exists>fs1 fs2.
      write_docstore json_dumps empty_fs store_path empty_snapshot = (None, fs1) \<and>
      read_docstore json_loads fs1 store_path = (Inr empty_snapshot, fs2)) \<and>
   fst (read_docstore json_loads (empty_fs(store_path \<mapsto> DbFile Map.empty)) store_path) =
     Inr empty_snapshot \<and>
   fst (read_docstore json_loads (empty_fs(store_path := None)) store_path) =
     Inl FileNotFoundError"
proof -
  have h1: "can_persist empty_fs store_path" by code_simp
  from empty_is_valid[OF h1, of json_dumps json_loads] h1 show ?thesis by blast
qed

text \<open>
  Claim C7 (round trip of the index store). Where the database file can be created, the
  index-store writer succeeds for a dict whose payloads the codec decodes back; the
  \<^verbatim>\<open>index_metadata\<close> table then holds one row per key of the dict, in its order and
  with nothing left of earlier rows, and reading the path returns the dict itself.
\<close>

theorem indexstore_roundtrip:
  assumes "can_persist fs p" "distinct (map fst data)"
    and "decodes_back dumps loads (map snd data)"
  shows "\<exists>fs1 fs2 db.
     write_indexstore dumps fs p data = (None, fs1) \<and>
     fs1 p = Some (DbFile db) \<and>
     db ''index_metadata'' = Some (encode_rows dumps data) \<and>
     read_indexstore loads fs1 p = (Inr data, fs2)"
proof -
  from assms(1) have ne: "p \<noteq> []" by (rule can_persist_nonempty)
  let ?db = "(indexstore_schema (db_before fs p))(''index_metadata'' \<mapsto> encode_rows dumps data)"
  let ?fs1 = "(snd (mkdir True True fs (parent p)))(p \<mapsto> DbFile ?db)"
  have w: "write_indexstore dumps fs p data = (None, ?fs1)"
    using write_indexstore_ok[OF assms(1), of dumps data]
    by (simp add: insert_rows_encode[OF assms(2)])
  have sc: "indexstore_schema ?db = ?db"
    by (auto simp: indexstore_schema_def fun_eq_iff)
  have l: "load_rows loads (encode_rows dumps data) [] = Inr data"
    using load_rows_encode[OF assms(2), of "[]" loads dumps] assms(3)
    by (simp add: decodes_back_def)
  have r: "read_indexstore loads ?fs1 p = (Inr data, ?fs1(p \<mapsto> DbFile ?db))"
    using read_indexstore_file[of ?fs1 p ?db loads] ne
    by (simp add: sc indexstore_rows_def select_all_def bind_res_def l)
  have t: "?fs1 p = Some (DbFile ?db)" "?db ''index_metadata'' = Some (encode_rows dumps data)"
    by simp_all
  from w r t show ?thesis by blast
qed

theorem indexstore_roundtrip_witness:
  "can_persist empty_fs index_path \<and> distinct (map fst scenario_C) \<and>
   decodes_back json_dumps json_loads (map snd scenario_C) \<and>
   (\<exists>fs1 fs2 db.
      write_indexstore json_dumps empty_fs index_path scenario_C = (None, fs1) \<and>
      fs1 index_path = Some (DbFile db) \<and>
      db ''index_metadata'' = Some (encode_rows json_dumps scenario_C) \<and>
      read_indexstore json_loads fs1 index_path = (Inr scenario_C, fs2))"
proof -
  have h1: "can_persist empty_fs index_path" by code_simp
  have h2: "distinct (map fst scenario_C)" by code_simp
  have h3: "decodes_back json_dumps json_loads (map snd scenario_C)" by code_simp
  from indexstore_roundtrip[OF h1 h2 h3] h1 h2 h3 show ?thesis by blast
qed

text \<open>
  Claim C10 (the writer accepts any mapping). Where the database file can be created, the
  write succeeds for every dict whose \<^verbatim>\<open>documents\<close> and \<^verbatim>\<open>ref_doc_info\<close> are mappings
  where present: the table of a missing key is left empty, and the \<^verbatim>\<open>metadata\<close> table
  holds one row for every other top-level key.
\<close>

theorem writer_accepts_any_mapping:
  assumes "can_persist fs p" "distinct (map fst data)" "snapshot_shape data"
  shows "\<exists>fs1 db.
     write_docstore dumps fs p data = (None, fs1) \<and>
     fs1 p = Some (DbFile db) \<and>
     (''documents'' \<notin> set (map fst data) \<longrightarrow> db ''documents'' = Some []) \<and>
     (''ref_doc_info'' \<notin> set (map fst data) \<longrightarrow> db ''ref_doc_info'' = Some []) \<and>
     db ''metadata'' = Some (encode_rows dumps (extras data))"
proof -
  let ?db = "stored_docstore dumps data (docstore_schema (db_before fs p))"
  let ?fs1 = "(snd (mkdir True True fs (parent p)))(p \<mapsto> DbFile ?db)"
  have w: "write_docstore dumps fs p data = (None, ?fs1)"
    by (rule write_docstore_ok[OF assms(1,3)])
  have g: "dict_get data k (JObj []) = JObj []" if "k \<notin> set (map fst data)" for k
  proof -
    from that have "map_of data k = None" by (simp add: map_of_eq_None_iff)
    then show ?thesis by (simp add: dict_get_def)
  qed
  have a: "''documents'' \<notin> set (map fst data) \<longrightarrow> ?db ''documents'' = Some []"
    by (auto simp: stored_docstore_tables g mapping_items_def simp del: set_map)
  have b: "''ref_doc_info'' \<notin> set (map fst data) \<longrightarrow> ?db ''ref_doc_info'' = Some []"
    by (auto simp: stored_docstore_tables g mapping_items_def simp del: set_map)
  have c: "?db ''metadata'' = Some (encode_rows dumps (extras data))"
    by (simp add: stored_docstore_tables insert_rows_encode extras_distinct assms(2))
  have t: "?fs1 p = Some (DbFile ?db)" by simp
  from w t a b c show ?thesis by blast
qed

theorem writer_accepts_any_mapping_witness:
  "can_persist seeded_fs store_path \<and> distinct (map fst kvstore_snapshot) \<and>
   snapshot_shape kvstore_snapshot \<and>
   table_rows seeded_fs store_path ''documents'' = [(''d1'', json_dumps (JObj [(''text'', JStr ''hello'')]))] \<and>
   (\<exists>fs1 db.
      write_docstore json_dumps seeded_fs store_path kvstore_snapshot = (None, fs1) \<and>
      fs1 store_path = Some (DbFile db) \<and>
      (''documents'' \<notin> set (map fst kvstore_snapshot) \<longrightarrow> db ''documents'' = Some []) \<and>
      (''ref_doc_info'' \<notin> set (map fst kvstore_snapshot) \<longrightarrow> db ''ref_doc_info'' = Some []) \<and>
      db ''metadata'' = Some (encode_rows json_dumps (extras kvstore_snapshot))) \<and>
   ''documents'' \<notin> set (map fst kvstore_snapshot) \<and>
   ''ref_doc_info'' \<notin> set (map fst kvstore_snapshot)"
proof -
  have h1: "can_persist seeded_fs store_path" by code_simp
  have h2: "distinct (map fst kvstore_snapshot)" by code_simp
  have h3: "snapshot_shape kvstore_snapshot" by code_simp
  have h4: "table_rows seeded_fs store_path ''documents'' = [(''d1'', json_dumps (JObj [(''text'', JStr ''hello'')]))]"
    by code_simp
  have h5: "''documents'' \<notin> set (map fst kvstore_snapshot)" by code_simp
  have h6: "''ref_doc_info'' \<notin> set (map fst kvstore_snapshot)" by code_simp
  from writer_accepts_any_mapping[OF h1 h2 h3, of json_dumps] h1 h2 h3 h4 h5 h6
  show ?thesis by blast
qed

text \<open>
  Claim C8 (a malformed payload raises). If a table of the file at the path holds a row
  whose payload the codec does not decode, the reader of the store that owns the table
  returns the decoding error JSONDecodeError: the row is neither skipped nor replaced by a
  default, and no mapping is returned.
\<close>

theorem malformed_payload_raises:
  assumes "p \<noteq> []" "(k, payload) \<in> set (table_rows fs p t)" "loads payload = None"
  shows "(t \<in> docstore_tables \<longrightarrow> fst (read_docstore loads fs p) = Inl JSONDecodeError) \<and>
         (t = ''index_metadata'' \<longrightarrow> fst (read_indexstore loads fs p) = Inl JSONDecodeError)"
proof -
  from assms(2) obtain db rows where
    f: "fs p = Some (DbFile db)" and t: "db t = Some rows" and m: "(k, payload) \<in> set rows"
    by (auto dest: table_rows_member)
  from f assms(1) have n: "node_at fs p = Some (DbFile db)" by (simp add: node_at_def)
  have a: "fst (read_docstore loads fs p) = Inl JSONDecodeError" if "t \<in> docstore_tables"
    using docstore_rows_malformed[where loads = loads and payload = payload and db = db
        and t = t, OF that t m assms(3)]
    by (simp add: read_docstore_cases n)
  have b: "fst (read_indexstore loads fs p) = Inl JSONDecodeError" if "t = ''index_metadata''"
  proof -
    from that t have "indexstore_schema db ''index_metadata'' = Some rows"
      by (simp add: indexstore_schema_def)
    with load_rows_malformed[where loads = loads and payload = payload, OF m assms(3)]
    show ?thesis
      by (simp add: read_indexstore_cases n indexstore_rows_def select_all_def bind_res_def)
  qed
  from a b show ?thesis by blast
qed

theorem malformed_payload_raises_witness:
  "store_path \<noteq> [] \<and> index_path \<noteq> [] \<and>
   (''r1'', ''{bad'') \<in> set (table_rows corrupt_fs store_path ''ref_doc_info'') \<and>
   (''index_1'', ''[1, 2'') \<in> set (table_rows corrupt_index_fs index_path ''index_metadata'') \<and>
   json_loads ''{bad'' = None \<and> json_loads ''[1, 2'' = None \<and>
   ''ref_doc_info'' \<in> docstore_tables \<and>
   fst (read_docstore json_loads corrupt_fs store_path) = Inl JSONDecodeError \<and>
   fst (read_indexstore json_loads corrupt_index_fs index_path) = Inl JSONDecodeError"
proof -
  have h1: "store_path \<noteq> []" "index_path \<noteq> []" by (simp_all add: store_path_def index_path_def)
  have h2: "(''r1'', ''{bad'') \<in> set (table_rows corrupt_fs store_path ''ref_doc_info'')"
    by (simp add: table_rows_def corrupt_fs_def corrupt_db_def)
  have h3: "(''index_1'', ''[1, 2'') \<in> set (table_rows corrupt_index_fs index_path ''index_metadata'')"
    by (simp add: table_rows_def corrupt_index_fs_def corrupt_index_db_def)
  have h4: "json_loads ''{bad'' = None" by code_simp
  have h5: "json_loads ''[1, 2'' = None" by code_simp
  have h6: "''ref_doc_info'' \<in> docstore_tables" by (simp add: docstore_tables_def)
  from malformed_payload_raises[where loads = json_loads and payload = "''{bad''", OF h1(1) h2 h4]
    malformed_payload_raises[where loads = json_loads and payload = "''[1, 2''", OF h1(2) h3 h5]
    h1 h2 h3 h4 h5 h6
  show ?thesis by blast
qed

text \<open>
  Claim C4 (a write is all or nothing). A write that returns normally has replaced all of
  its tables: each holds the rows inserted from the new snapshot. A write that raises
  leaves the rows of every table at the path as they were; where something existed at the
  path a read returns what it returned before, and where nothing existed a read finds
  no file or the empty store (the schema is created outside the transaction), never a
  part of the new snapshot. The same holds of the index store.
\<close>

theorem write_all_or_nothing:
  assumes "write_docstore dumps fs p data = (r, fs')"
    and "write_indexstore dumps fs p idata = (ri, fsi)"
  shows
    "(r = None \<longrightarrow>
        table_rows fs' p ''documents'' =
          insert_rows dumps [] (mapping_items (dict_get data ''documents'' (JObj []))) \<and>
        table_rows fs' p ''ref_doc_info'' =
          insert_rows dumps [] (mapping_items (dict_get data ''ref_doc_info'' (JObj []))) \<and>
        table_rows fs' p ''metadata'' = insert_rows dumps [] (extras data)) \<and>
     (r \<noteq> None \<longrightarrow>
        (\<forall>t. table_rows fs' p t = table_rows fs p t) \<and>
        (path_exists fs p \<longrightarrow> fst (read_docstore loads fs' p) = fst (read_docstore loads fs p)) \<and>
        (\<not> path_exists fs p \<longrightarrow>
           fst (read_docstore loads fs' p) = Inl FileNotFoundError \<or>
           fst (read_docstore loads fs' p) = Inr empty_snapshot)) \<and>
     (ri = None \<longrightarrow> table_rows fsi p ''index_metadata'' = insert_rows dumps [] idata) \<and>
     (ri \<noteq> None \<longrightarrow>
        (\<forall>t. table_rows fsi p t = table_rows fs p t) \<and>
        fst (read_indexstore loads fsi p) = fst (read_indexstore loads fs p))"
proof -
  have a: "table_rows fs' p ''documents'' =
          insert_rows dumps [] (mapping_items (dict_get data ''documents'' (JObj []))) \<and>
        table_rows fs' p ''ref_doc_info'' =
          insert_rows dumps [] (mapping_items (dict_get data ''ref_doc_info'' (JObj []))) \<and>
        table_rows fs' p ''metadata'' = insert_rows dumps [] (extras data)" if "r = None"
    using write_docstore_succeeded[of dumps fs p data fs'] assms(1) that
    by (simp add: table_rows_def stored_docstore_tables)
  have b: "table_rows fs' p t = table_rows fs p t" if "r \<noteq> None" for t
  proof -
    from that assms(1) obtain e where "write_docstore dumps fs p data = (Some e, fs')" by auto
    from write_docstore_failed[OF this] show ?thesis
      using table_rows_schema[of fs p t] by (auto simp: table_rows_def)
  qed
  have c: "(path_exists fs p \<longrightarrow> fst (read_docstore loads fs' p) = fst (read_docstore loads fs p)) \<and>
        (\<not> path_exists fs p \<longrightarrow>
           fst (read_docstore loads fs' p) = Inl FileNotFoundError \<or>
           fst (read_docstore loads fs' p) = Inr empty_snapshot)" if "r \<noteq> None"
  proof -
    from that assms(1) obtain e where "write_docstore dumps fs p data = (Some e, fs')" by auto
    from read_docstore_after_failed[OF this, of loads] show ?thesis by auto
  qed
  have d: "table_rows fsi p ''index_metadata'' = insert_rows dumps [] idata" if "ri = None"
    using write_indexstore_succeeded[of dumps fs p idata fsi] assms(2) that
    by (simp add: table_rows_def)
  have e: "(\<forall>t. table_rows fsi p t = table_rows fs p t) \<and>
        fst (read_indexstore loads fsi p) = fst (read_indexstore loads fs p)" if "ri \<noteq> None"
  proof -
    from that assms(2) obtain e where "write_indexstore dumps fs p idata = (Some e, fsi)" by auto
    from write_indexstore_failed[OF this] show ?thesis
      by (simp add: table_rows_def read_indexstore_cases)
  qed
  from a b c d e show ?thesis by blast
qed

theorem write_all_or_nothing_witness:
  "write_docstore json_dumps seeded_fs store_path broken_snapshot =
     (Some AttributeError, snd (write_docstore json_dumps seeded_fs store_path broken_snapshot)) \<and>
   write_indexstore json_dumps dir_fs store_path scenario_C =
     (Some (OperationalError UnableToOpen),
      snd (write_indexstore json_dumps dir_fs store_path scenario_C)) \<and>
   path_exists seeded_fs store_path \<and>
   table_rows (snd (write_docstore json_dumps seeded_fs store_path broken_snapshot)) store_path
       ''documents'' =
     table_rows seeded_fs store_path ''documents'' \<and>
   table_rows seeded_fs store_path ''documents'' =
     [(''d1'', json_dumps (JObj [(''text'', JStr ''hello'')]))] \<and>
   fst (read_docstore json_loads
       (snd (write_docstore json_dumps seeded_fs store_path broken_snapshot)) store_path) =
     fst (read_docstore json_loads seeded_fs store_path) \<and>
   fst (read_docstore json_loads seeded_fs store_path) = Inr scenario_A"
proof -
  have f1: "fst (write_docstore json_dumps seeded_fs store_path broken_snapshot) =
      Some AttributeError"
    by code_simp
  have f2: "fst (write_indexstore json_dumps dir_fs store_path scenario_C) =
      Some (OperationalError UnableToOpen)"
    by code_simp
  have h1: "write_docstore json_dumps seeded_fs store_path broken_snapshot =
     (Some AttributeError, snd (write_docstore json_dumps seeded_fs store_path broken_snapshot))"
    using f1 by (simp add: prod_eq_iff)
  have h2: "write_indexstore json_dumps dir_fs store_path scenario_C =
     (Some (OperationalError UnableToOpen),
      snd (write_indexstore json_dumps dir_fs store_path scenario_C))"
    using f2 by (simp add: prod_eq_iff)
  have h3: "path_exists seeded_fs store_path" by code_simp
  have h4: "table_rows seeded_fs store_path ''documents'' =
     [(''d1'', json_dumps (JObj [(''text'', JStr ''hello'')]))]"
    by code_simp
  have h5: "fst (read_docstore json_loads seeded_fs store_path) = Inr scenario_A" by code_simp
  have h6: "write_indexstore json_dumps seeded_fs store_path scenario_C =
      (fst (write_indexstore json_dumps seeded_fs store_path scenario_C),
       snd (write_indexstore json_dumps seeded_fs store_path scenario_C))"
    by simp
  from write_all_or_nothing[OF h1 h6, of json_loads] h1 h2 h3 h4 h5
  show ?thesis by simp
qed

text \<open>
  Claim C3, as amended. A reader raises FileNotFoundError exactly when nothing at all
  exists at the path; a writer never raises it; and where no ancestor of the path is a
  file and the path is not a directory, a write leaves the parent directory and a
  database file at the path, for every mapping, also one on which the write raises later.
\<close>

theorem not_found_only_when_absent:
  "(fst (read_docstore loads fs p) = Inl FileNotFoundError \<longleftrightarrow> \<not> path_exists fs p) \<and>
   (fst (read_indexstore loads fs p) = Inl FileNotFoundError \<longleftrightarrow> \<not> path_exists fs p) \<and>
   fst (write_docstore dumps fs p data) \<noteq> Some FileNotFoundError \<and>
   fst (write_indexstore dumps fs p data) \<noteq> Some FileNotFoundError \<and>
   (can_persist fs p \<longrightarrow>
      is_dir (snd (write_docstore dumps fs p data)) (parent p) \<and>
      is_file (snd (write_docstore dumps fs p data)) p \<and>
      is_dir (snd (write_indexstore dumps fs p data)) (parent p) \<and>
      is_file (snd (write_indexstore dumps fs p data)) p)"
proof -
  have a: "fst (read_docstore loads fs p) = Inl FileNotFoundError \<longleftrightarrow> \<not> path_exists fs p"
    by (auto simp: read_docstore_cases path_exists_def split: option.splits node.splits
        dest: docstore_rows_error)
  have b: "fst (read_indexstore loads fs p) = Inl FileNotFoundError \<longleftrightarrow> \<not> path_exists fs p"
    by (auto simp: read_indexstore_cases path_exists_def split: option.splits node.splits
        dest: indexstore_rows_error)
  have c: "fst (write_docstore dumps fs p data) \<noteq> Some FileNotFoundError"
    using write_docstore_error[of dumps fs p data FileNotFoundError] by auto
  have d: "fst (write_indexstore dumps fs p data) \<noteq> Some FileNotFoundError"
    using write_indexstore_error[of dumps fs p data FileNotFoundError] by auto
  have e: "is_dir (snd (write_docstore dumps fs p data)) (parent p) \<and>
      is_file (snd (write_docstore dumps fs p data)) p \<and>
      is_dir (snd (write_indexstore dumps fs p data)) (parent p) \<and>
      is_file (snd (write_indexstore dumps fs p data)) p" if cp: "can_persist fs p"
  proof -
    from cp have ne: "p \<noteq> []" by (rule can_persist_nonempty)
    have f: "is_file (fs0(p \<mapsto> DbFile db)) p" for fs0 db
      using ne by (simp add: is_file_def node_at_def)
    show ?thesis
      using write_docstore_state[OF cp, of dumps data] write_indexstore_ok[OF cp, of dumps data]
        is_dir_after_mkdir[OF cp] f
      by simp
  qed
  from a b c d e show ?thesis by blast
qed

theorem not_found_only_when_absent_witness:
  "can_persist empty_fs store_path \<and>
   \<not> path_exists empty_fs store_path \<and>
   fst (read_docstore json_loads empty_fs store_path) = Inl FileNotFoundError \<and>
   fst (read_indexstore json_loads empty_fs store_path) = Inl FileNotFoundError \<and>
   fst (write_docstore json_dumps empty_fs store_path broken_snapshot) = Some AttributeError \<and>
   is_dir (snd (write_docstore json_dumps empty_fs store_path broken_snapshot))
     (parent store_path) \<and>
   is_file (snd (write_docstore json_dumps empty_fs store_path broken_snapshot)) store_path \<and>
   is_dir (snd (write_indexstore json_dumps empty_fs store_path broken_snapshot))
     (parent store_path) \<and>
   is_file (snd (write_indexstore json_dumps empty_fs store_path broken_snapshot)) store_path"
proof -
  have h1: "can_persist empty_fs store_path" by code_simp
  have h2: "\<not> path_exists empty_fs store_path" by code_simp
  have h3: "fst (write_docstore json_dumps empty_fs store_path broken_snapshot) =
      Some AttributeError"
    by code_simp
  from not_found_only_when_absent[of json_loads empty_fs store_path json_dumps broken_snapshot]
    h1 h2 h3
  show ?thesis by simp
qed

text \<open>
  Claim C3 as stated fails where a directory sits at the path: there is no database
  file there, \<^verbatim>\<open>Path.exists()\<close> holds, and the reader fails in \<^verbatim>\<open>sqlite3.connect\<close> with
  an OperationalError, not with FileNotFoundError.
\<close>

theorem not_found_iff_no_file_counterexample:
  "\<not> is_file dir_fs store_path \<and>
   fst (read_docstore json_loads dir_fs store_path) = Inl (OperationalError UnableToOpen) \<and>
   fst (read_indexstore json_loads dir_fs store_path) = Inl (OperationalError UnableToOpen) \<and>
   \<not> (fst (read_docstore json_loads dir_fs store_path) = Inl FileNotFoundError \<longleftrightarrow>
        \<not> is_file dir_fs store_path)"
  by code_simp

text \<open>
  Claim C6 (schema creation is idempotent). Creating the schema never fails, keeps every
  table that exists with its rows, and run again changes nothing, for both stores. In any
  sequence of persist and hydrate calls against one path no call fails because a table
  already exists, and a hydrate leaves the rows of every table as they were. Where the
  file can be created, every persist of a snapshot in such a sequence returns normally.
\<close>

theorem schema_creation_idempotent:
  "(\<exists>db'. ensure_docstore_schema db = Inr db' \<and> db \<subseteq>\<^sub>m db' \<and>
          ensure_docstore_schema db' = Inr db') \<and>
   (\<exists>db'. create_table True ''index_metadata'' db = Inr db' \<and> db \<subseteq>\<^sub>m db' \<and>
          create_table True ''index_metadata'' db' = Inr db') \<and>
   Some (OperationalError (TableExists t)) \<notin> set (fst (run_docstore dumps loads p ops fs)) \<and>
   Some (OperationalError (TableExists t)) \<notin> set (fst (run_indexstore dumps loads p ops fs)) \<and>
   (\<forall>t'. table_rows (snd (read_docstore loads fs p)) p t' = table_rows fs p t') \<and>
   (\<forall>t'. table_rows (snd (read_indexstore loads fs p)) p t' = table_rows fs p t') \<and>
   (can_persist fs p \<and> snapshots_only ops \<longrightarrow>
      persists_succeed ops (fst (run_docstore dumps loads p ops fs))) \<and>
   (can_persist fs p \<longrightarrow> persists_succeed ops (fst (run_indexstore dumps loads p ops fs)))"
proof -
  have a: "\<exists>db'. ensure_docstore_schema db = Inr db' \<and> db \<subseteq>\<^sub>m db' \<and>
          ensure_docstore_schema db' = Inr db'"
    using docstore_schema_le[of db] by (simp add: ensure_schema docstore_schema_idem)
  have b: "\<exists>db'. create_table True ''index_metadata'' db = Inr db' \<and> db \<subseteq>\<^sub>m db' \<and>
          create_table True ''index_metadata'' db' = Inr db'"
    using indexstore_schema_le[of db] by (simp add: create_index_table indexstore_schema_idem)
  have c: "can_persist fs p \<Longrightarrow> persistable fs p" by (simp add: persistable_def)
  from a b c show ?thesis
    by (simp add: run_docstore_no_table_exists run_indexstore_no_table_exists
        read_docstore_keeps_rows read_indexstore_keeps_rows run_docstore_persists
        run_indexstore_persists)
qed

theorem schema_creation_idempotent_witness:
  "can_persist empty_fs store_path \<and> snapshots_only call_sequence \<and>
   fst (run_docstore json_dumps json_loads store_path call_sequence empty_fs) =
     [Some FileNotFoundError, None, None, None, None] \<and>
   persists_succeed call_sequence
     (fst (run_docstore json_dumps json_loads store_path call_sequence empty_fs)) \<and>
   persists_succeed call_sequence
     (fst (run_indexstore json_dumps json_loads store_path call_sequence empty_fs)) \<and>
   table_rows (snd (read_docstore json_loads seeded_fs store_path)) store_path ''documents'' =
     table_rows seeded_fs store_path ''documents'' \<and>
   table_rows seeded_fs store_path ''documents'' =
     [(''d1'', json_dumps (JObj [(''text'', JStr ''hello'')]))] \<and>
   ensure_docstore_schema corrupt_db = Inr (docstore_schema corrupt_db) \<and>
   docstore_schema corrupt_db ''ref_doc_info'' = Some [(''r1'', ''{bad'')] \<and>
   docstore_schema corrupt_db ''metadata'' = Some []"
proof -
  have h1: "can_persist empty_fs store_path" by code_simp
  have h2: "snapshots_only call_sequence" by code_simp
  have h3: "fst (run_docstore json_dumps json_loads store_path call_sequence empty_fs) =
     [Some FileNotFoundError, None, None, None, None]"
    by code_simp
  have h4: "table_rows seeded_fs store_path ''documents'' =
     [(''d1'', json_dumps (JObj [(''text'', JStr ''hello'')]))]"
    by code_simp
  have h5: "docstore_schema corrupt_db ''ref_doc_info'' = Some [(''r1'', ''{bad'')]"
    "docstore_schema corrupt_db ''metadata'' = Some []"
    by (simp_all add: docstore_schema_def corrupt_db_def docstore_tables_def)
  note t = schema_creation_idempotent[of corrupt_db "''documents''" json_dumps json_loads
      store_path call_sequence empty_fs]
  note u = schema_creation_idempotent[of corrupt_db "''documents''" json_dumps json_loads
      store_path call_sequence seeded_fs]
  from t h1 h2 have c1: "persists_succeed call_sequence
     (fst (run_docstore json_dumps json_loads store_path call_sequence empty_fs))"
    by blast
  from t h1 have c2: "persists_succeed call_sequence
     (fst (run_indexstore json_dumps json_loads store_path call_sequence empty_fs))"
    by blast
  from u have c3: "table_rows (snd (read_docstore json_loads seeded_fs store_path)) store_path
      ''documents'' = table_rows seeded_fs store_path ''documents''"
    by blast
  have c4: "ensure_docstore_schema corrupt_db = Inr (docstore_schema corrupt_db)"
    by (rule ensure_schema)
  from h1 h2 h3 h4 h5 c1 c2 c3 c4 show ?thesis by blast
qed

text \<open>
  Claim C9, as amended. Both store classes resolve the path as the directory joined with
  the given name when that name is not empty, and with the default name
  (\<^verbatim>\<open>docstore.sqlite\<close>, \<^verbatim>\<open>indexstore.sqlite\<close>) when no name or the empty string is given.
  A \<^verbatim>\<open>from_persist_dir\<close> that returns has read that path and holds it in \<^verbatim>\<open>_db_path\<close>;
  a \<^verbatim>\<open>persist\<close> that returns has written that path and holds it in \<^verbatim>\<open>_db_path\<close>.
\<close>

theorem adapters_resolve_and_record:
  "(docstore_from_persist_dir loads from_dict fs d n = (Inr inst, fs') \<longrightarrow>
      db_path inst = Some (joinpath d (name_or n DOCSTORE_DB)) \<and>
      (\<exists>data. read_docstore loads fs (joinpath d (name_or n DOCSTORE_DB)) = (Inr data, fs') \<and>
              from_dict data = Inr (base inst))) \<and>
   (docstore_persist dumps to_dict self fs d n = (Inr inst, fs') \<longrightarrow>
      inst = self\<lparr>db_path := Some (joinpath d (name_or n DOCSTORE_DB))\<rparr> \<and>
      write_docstore dumps fs (joinpath d (name_or n DOCSTORE_DB)) (to_dict (base self)) =
        (None, fs')) \<and>
   (indexstore_from_persist_dir loads from_dict fs d n = (Inr inst, fs') \<longrightarrow>
      db_path inst = Some (joinpath d (name_or n INDEXSTORE_DB)) \<and>
      (\<exists>data. read_indexstore loads fs (joinpath d (name_or n INDEXSTORE_DB)) = (Inr data, fs') \<and>
              from_dict data = Inr (base inst))) \<and>
   (indexstore_persist dumps to_dict self fs d n = (Inr inst, fs') \<longrightarrow>
      inst = self\<lparr>db_path := Some (joinpath d (name_or n INDEXSTORE_DB))\<rparr> \<and>
      write_indexstore dumps fs (joinpath d (name_or n INDEXSTORE_DB)) (to_dict (base self)) =
        (None, fs')) \<and>
   name_or None dflt = dflt \<and>
   name_or (Some []) dflt = dflt \<and>
   (m \<noteq> [] \<longrightarrow> name_or (Some m) dflt = m \<and> joinpath d m = d @ [m]) \<and>
   DOCSTORE_DB = ''docstore.sqlite'' \<and> INDEXSTORE_DB = ''indexstore.sqlite''"
proof -
  have a: "docstore_from_persist_dir loads from_dict fs d n = (Inr inst, fs') \<longrightarrow>
      db_path inst = Some (joinpath d (name_or n DOCSTORE_DB)) \<and>
      (\<exists>data. read_docstore loads fs (joinpath d (name_or n DOCSTORE_DB)) = (Inr data, fs') \<and>
              from_dict data = Inr (base inst))"
    by (auto simp: docstore_from_persist_dir_def Let_def split: prod.splits sum.splits)
  have b: "docstore_persist dumps to_dict self fs d n = (Inr inst, fs') \<longrightarrow>
      inst = self\<lparr>db_path := Some (joinpath d (name_or n DOCSTORE_DB))\<rparr> \<and>
      write_docstore dumps fs (joinpath d (name_or n DOCSTORE_DB)) (to_dict (base self)) =
        (None, fs')"
    by (auto simp: docstore_persist_def Let_def split: prod.splits option.splits)
  have c: "indexstore_from_persist_dir loads from_dict fs d n = (Inr inst, fs') \<longrightarrow>
      db_path inst = Some (joinpath d (name_or n INDEXSTORE_DB)) \<and>
      (\<exists>data. read_indexstore loads fs (joinpath d (name_or n INDEXSTORE_DB)) = (Inr data, fs') \<and>
              from_dict data = Inr (base inst))"
    by (auto simp: indexstore_from_persist_dir_def Let_def split: prod.splits sum.splits)
  have e: "indexstore_persist dumps to_dict self fs d n = (Inr inst, fs') \<longrightarrow>
      inst = self\<lparr>db_path := Some (joinpath d (name_or n INDEXSTORE_DB))\<rparr> \<and>
      write_indexstore dumps fs (joinpath d (name_or n INDEXSTORE_DB)) (to_dict (base self)) =
        (None, fs')"
    by (auto simp: indexstore_persist_def Let_def split: prod.splits option.splits)
  have f: "name_or None dflt = dflt \<and> name_or (Some []) dflt = dflt \<and>
     (m \<noteq> [] \<longrightarrow> name_or (Some m) dflt = m \<and> joinpath d m = d @ [m]) \<and>
     DOCSTORE_DB = ''docstore.sqlite'' \<and> INDEXSTORE_DB = ''indexstore.sqlite''"
    by (simp add: name_or_def joinpath_def DOCSTORE_DB_def INDEXSTORE_DB_def)
  from a b c e f show ?thesis by blast
qed

theorem adapters_resolve_and_record_witness:
  "docstore_persist json_dumps unit_to_dict fresh_store empty_fs store_dir (Some ''my.db'') =
     (Inr (fresh_store\<lparr>db_path := Some [''store'', ''my.db'']\<rparr>),
      snd (docstore_persist json_dumps unit_to_dict fresh_store empty_fs store_dir
             (Some ''my.db''))) \<and>
   write_docstore json_dumps empty_fs (joinpath store_dir (name_or (Some ''my.db'') DOCSTORE_DB))
       (unit_to_dict (base fresh_store)) =
     (None,
      snd (docstore_persist json_dumps unit_to_dict fresh_store empty_fs store_dir
             (Some ''my.db''))) \<and>
   joinpath store_dir (name_or (Some ''my.db'') DOCSTORE_DB) = [''store'', ''my.db''] \<and>
   joinpath store_dir (name_or None DOCSTORE_DB) = [''store'', ''docstore.sqlite''] \<and>
   joinpath store_dir (name_or None INDEXSTORE_DB) = [''store'', ''indexstore.sqlite''] \<and>
   map_sum id db_path
     (fst (docstore_from_persist_dir json_loads unit_from_dict seeded_fs store_dir None)) =
     Inr (Some store_path)"
proof -
  have f1: "fst (docstore_persist json_dumps unit_to_dict fresh_store empty_fs store_dir
      (Some ''my.db'')) = Inr (fresh_store\<lparr>db_path := Some [''store'', ''my.db'']\<rparr>)"
    by code_simp
  then have h1: "docstore_persist json_dumps unit_to_dict fresh_store empty_fs store_dir
      (Some ''my.db'') =
     (Inr (fresh_store\<lparr>db_path := Some [''store'', ''my.db'']\<rparr>),
      snd (docstore_persist json_dumps unit_to_dict fresh_store empty_fs store_dir
             (Some ''my.db'')))"
    by (simp add: prod_eq_iff)
  have h2: "joinpath store_dir (name_or (Some ''my.db'') DOCSTORE_DB) = [''store'', ''my.db'']"
    "joinpath store_dir (name_or None DOCSTORE_DB) = [''store'', ''docstore.sqlite'']"
    "joinpath store_dir (name_or None INDEXSTORE_DB) = [''store'', ''indexstore.sqlite'']"
    by code_simp+
  have h3: "map_sum id db_path
     (fst (docstore_from_persist_dir json_loads unit_from_dict seeded_fs store_dir None)) =
     Inr (Some store_path)"
    by code_simp
  note t = adapters_resolve_and_record[of json_loads unit_from_dict empty_fs store_dir
      "Some ''my.db''" "fresh_store\<lparr>db_path := Some [''store'', ''my.db'']\<rparr>"
      "snd (docstore_persist json_dumps unit_to_dict fresh_store empty_fs store_dir
             (Some ''my.db''))" json_dumps unit_to_dict fresh_store]
  from t h1 have c: "write_docstore json_dumps empty_fs
       (joinpath store_dir (name_or (Some ''my.db'') DOCSTORE_DB))
       (unit_to_dict (base fresh_store)) =
     (None,
      snd (docstore_persist json_dumps unit_to_dict fresh_store empty_fs store_dir
             (Some ''my.db'')))"
    by blast
  from h1 h2 h3 c show ?thesis by blast
qed

text \<open>
  Claim C9 as stated fails for the empty string given as the name: \<^verbatim>\<open>db_name or DEFAULT\<close>
  takes the default, so the recorded path is the directory joined with the default name
  and not the directory joined with the name given, which is the directory itself.
\<close>

theorem empty_override_counterexample:
  "fst (docstore_persist json_dumps unit_to_dict fresh_store empty_fs store_dir (Some [])) =
     Inr (fresh_store\<lparr>db_path := Some [''store'', ''docstore.sqlite'']\<rparr>) \<and>
   fst (indexstore_persist json_dumps unit_to_dict fresh_store empty_fs store_dir (Some [])) =
     Inr (fresh_store\<lparr>db_path := Some [''store'', ''indexstore.sqlite'']\<rparr>) \<and>
   joinpath store_dir [] = [''store''] \<and>
   [''store'', ''docstore.sqlite''] \<noteq> joinpath store_dir []"
  by code_simp

end
